theory Spec2Isabelle
  imports Main "HOL-Library.Word"
begin

unbundle bit_operations_syntax

section \<open>The FAT32 driver of thor-os (kernel/src/fat32.cpp)\<close>

text \<open>
  The driver is embedded function by function. Machine integers are words of the width
  the C++ types have on x86-64 (\<open>uint8_t\<close> to \<open>uint64_t\<close>), so \<open>+\<close>, \<open>-\<close> and \<open>*\<close>
  wrap as they do in the code. The file-scope globals of the anonymous namespace are
  the record \<open>cache\<close>, passed in and returned. A dereference of a null pointer and a
  division by zero are values of the type \<open>fault\<close>; a loop that may run forever is a
  \<^theory_text>\<open>partial_function\<close> in the option monad, where \<open>None\<close> means that the
  loop never returns.
\<close>

subsection \<open>Machine types, faults\<close>

type_synonym u8 = "8 word"
type_synonym u16 = "16 word"
type_synonym u32 = "32 word"
type_synonym u64 = "64 word"

datatype fault = NullPointer | DivisionByZero

subsection \<open>The block device\<close>

text \<open>
  \<open>fat32::dd\<close> and \<open>disks::partition_descriptor\<close> are declared outside this file; the
  driver reads \<open>disk.uuid\<close>, \<open>partition.uuid\<close> and \<open>partition.start\<close>. The record
  \<open>dd\<close> also carries the medium: what a read of one sector at an address gives, or
  \<open>None\<close> where the device fails.
\<close>

record dd =
  disk_uuid :: u64
  sectors :: "u64 \<Rightarrow> u8 list option"

record partition_descriptor =
  partition_uuid :: u64
  start :: u64

definition sector_bytes :: "u8 list \<Rightarrow> u8 list" where
  "sector_bytes s = take 512 (s @ replicate (512 - length s) 0)"

text \<open>
  Modelled from the spec: \<open>read_sectors(disk, starting_lba, sector_count, buffer)\<close> of the
  block device layer, which is not part of this file. It reads \<open>sector_count\<close>
  consecutive 512-byte sectors into a buffer sized for exactly that many sectors and
  returns false on any failure, with no partial success. \<open>Some buf\<close> is a successful
  read with the buffer's content, \<open>None\<close> is the result false.
\<close>

fun read_sectors :: "dd \<Rightarrow> u64 \<Rightarrow> nat \<Rightarrow> u8 list option" where
  "read_sectors disk lba 0 = Some []"
| "read_sectors disk lba (Suc n) =
     (case sectors disk lba of
        None \<Rightarrow> None
      | Some s \<Rightarrow>
          (case read_sectors disk (lba + 1) n of
             None \<Rightarrow> None
           | Some rest \<Rightarrow> Some (sector_bytes s @ rest)))"

declare read_sectors.simps [simp del]

subsection \<open>On-disk structures\<close>

text \<open>
  The packed structs are overlaid on the buffers a read fills; x86-64 is little-endian.
  A field is decoded from the bytes at its offset in the packed layout.
\<close>

definition u16_at :: "u8 list \<Rightarrow> nat \<Rightarrow> u16" where
  "u16_at buf i = ucast (buf ! i) OR push_bit 8 (ucast (buf ! (i + 1)))"

definition u32_at :: "u8 list \<Rightarrow> nat \<Rightarrow> u32" where
  "u32_at buf i =
     ucast (buf ! i) OR push_bit 8 (ucast (buf ! (i + 1)))
       OR push_bit 16 (ucast (buf ! (i + 2))) OR push_bit 24 (ucast (buf ! (i + 3)))"

text \<open>
  \<open>fat_bs_t\<close>, the boot sector (512 bytes). The record keeps the fields the driver
  reads, at their packed offsets: \<open>sectors_per_cluster\<close> 13, \<open>reserved_sectors\<close> 14,
  \<open>number_of_fat\<close> 16, \<open>sectors_per_fat_long\<close> 36, \<open>root_directory_cluster_start\<close> 44,
  \<open>fs_information_sector\<close> 48. The other fields are never read.
\<close>

record fat_bs_t =
  sectors_per_cluster :: u8
  reserved_sectors :: u16
  number_of_fat :: u8
  sectors_per_fat_long :: u32
  root_directory_cluster_start :: u32
  fs_information_sector :: u16

definition decode_bs :: "u8 list \<Rightarrow> fat_bs_t" where
  "decode_bs buf =
     \<lparr>sectors_per_cluster = buf ! 13,
      reserved_sectors = u16_at buf 14,
      number_of_fat = buf ! 16,
      sectors_per_fat_long = u32_at buf 36,
      root_directory_cluster_start = u32_at buf 44,
      fs_information_sector = u16_at buf 48\<rparr>"

text \<open>\<open>fat_is_t\<close>, the FS-information sector: \<open>free_clusters\<close> at offset 488,
  \<open>allocated_clusters\<close> at 492.\<close>

record fat_is_t =
  free_clusters :: u32
  allocated_clusters :: u32

definition decode_is :: "u8 list \<Rightarrow> fat_is_t" where
  "decode_is buf = \<lparr>free_clusters = u32_at buf 488, allocated_clusters = u32_at buf 492\<rparr>"

text \<open>\<open>cluster_entry\<close>, a directory entry (32 bytes): \<open>name\<close> at 0 (11 bytes),
  \<open>attrib\<close> 11, \<open>cluster_high\<close> 20, \<open>cluster_low\<close> 26, \<open>file_size\<close> 28.\<close>

record cluster_entry =
  name :: "u8 list"
  attrib :: u8
  cluster_high :: u16
  cluster_low :: u16
  file_size :: u32

definition decode_entry :: "u8 list \<Rightarrow> nat \<Rightarrow> cluster_entry" where
  "decode_entry buf i =
     \<lparr>name = take 11 (drop (32 * i) buf),
      attrib = buf ! (32 * i + 11),
      cluster_high = u16_at buf (32 * i + 20),
      cluster_low = u16_at buf (32 * i + 26),
      file_size = u32_at buf (32 * i + 28)\<rparr>"

text \<open>A buffer of \<open>16 * sectors_per_cluster\<close> entries, as
  \<open>std::unique_heap_array<cluster_entry>\<close> views it.\<close>

definition cluster_entries :: "fat_bs_t \<Rightarrow> u8 list \<Rightarrow> cluster_entry list" where
  "cluster_entries bs buf = map (decode_entry buf) [0 ..< 16 * unat (sectors_per_cluster bs)]"

subsection \<open>The globals\<close>

record cache =
  cached_disk :: u64
  cached_partition :: u64
  partition_start :: u64
  fat_bs :: "fat_bs_t option"
  fat_is :: "fat_is_t option"

definition initial_cache :: cache where
  "initial_cache =
     \<lparr>cached_disk = - 1, cached_partition = - 1, partition_start = 0,
      fat_bs = None, fat_is = None\<rparr>"

subsection \<open>Geometry and metadata cache\<close>

definition cache_bs :: "dd \<Rightarrow> partition_descriptor \<Rightarrow> cache \<Rightarrow> cache" where
  "cache_bs disk part st =
     (case read_sectors disk (start part) 1 of
        Some buf \<Rightarrow> st\<lparr>fat_bs := Some (decode_bs buf)\<rparr>
      | None \<Rightarrow> st\<lparr>fat_bs := None\<rparr>)"

text \<open>\<open>cache_is\<close> reads \<open>fat_bs->fs_information_sector\<close> before anything else: with
  \<open>fat_bs\<close> null that is a null-pointer dereference.\<close>

definition cache_is :: "dd \<Rightarrow> partition_descriptor \<Rightarrow> cache \<Rightarrow> fault + cache" where
  "cache_is disk part st =
     (case fat_bs st of
        None \<Rightarrow> Inl NullPointer
      | Some bs \<Rightarrow>
          (let fs_information_lba = start part + ucast (fs_information_sector bs)
           in case read_sectors disk fs_information_lba 1 of
                Some buf \<Rightarrow> Inr (st\<lparr>fat_is := Some (decode_is buf)\<rparr>)
              | None \<Rightarrow> Inr (st\<lparr>fat_is := None\<rparr>)))"

definition cache_disk_partition ::
  "dd \<Rightarrow> partition_descriptor \<Rightarrow> cache \<Rightarrow> fault + (bool \<times> cache)" where
  "cache_disk_partition disk part st =
     (if cached_disk st \<noteq> disk_uuid disk \<or> cached_partition st \<noteq> partition_uuid part
      then
        (case cache_is disk part
                (cache_bs disk part (st\<lparr>partition_start := start part\<rparr>)) of
           Inl f \<Rightarrow> Inl f
         | Inr st' \<Rightarrow>
             (let st'' = st'\<lparr>cached_disk := disk_uuid disk,
                             cached_partition := partition_uuid part\<rparr>
              in Inr (fat_bs st'' \<noteq> None \<and> fat_is st'' \<noteq> None, st'')))
      else Inr (fat_bs st \<noteq> None \<and> fat_is st \<noteq> None, st))"

subsection \<open>Address translation\<close>

text \<open>
  The functions below run only after \<open>cache_disk_partition\<close> returned true, so
  \<open>fat_bs\<close> is not null there: they take the global \<open>partition_start\<close> and the boot
  sector \<open>fat_bs\<close> points to as arguments. In \<open>cluster_lba\<close> the product
  \<open>number_of_fat * sectors_per_fat_long\<close> is computed in \<open>uint32_t\<close> (the \<open>uint8_t\<close>
  operand is promoted to \<open>int\<close>, then converted), everything else in \<open>uint64_t\<close>.
\<close>

definition cluster_lba :: "u64 \<Rightarrow> fat_bs_t \<Rightarrow> u64 \<Rightarrow> u64" where
  "cluster_lba ps bs cluster =
     (let fat_begin = ps + ucast (reserved_sectors bs);
          cluster_begin =
            fat_begin + ucast ((ucast (number_of_fat bs) :: u32) * sectors_per_fat_long bs)
      in cluster_begin + (cluster - 2) * ucast (sectors_per_cluster bs))"

subsection \<open>FAT chain walker\<close>

text \<open>\<open>cluster * 4\<close> is a \<open>uint32_t\<close> product; the division and the remainder by
  \<open>cluster_size\<close> trap when \<open>sectors_per_cluster\<close> is 0.\<close>

definition read_fat_value :: "dd \<Rightarrow> u64 \<Rightarrow> fat_bs_t \<Rightarrow> u32 \<Rightarrow> fault + u32" where
  "read_fat_value disk ps bs cluster =
     (let fat_begin = ps + ucast (reserved_sectors bs);
          cluster_size = (512 * ucast (sectors_per_cluster bs) :: u32)
      in if cluster_size = 0 then Inl DivisionByZero
         else
           (let fat_sector = fat_begin + ucast ((cluster * 4) div cluster_size)
            in case read_sectors disk fat_sector (unat (sectors_per_cluster bs)) of
                 Some fat_table \<Rightarrow>
                   (let entry_offset = (ucast (((cluster * 4) mod cluster_size) div 4) :: u64)
                    in Inr (u32_at fat_table (4 * unat entry_offset) AND 0x0FFFFFFF))
               | None \<Rightarrow> Inr 0))"

definition next_cluster :: "dd \<Rightarrow> u64 \<Rightarrow> fat_bs_t \<Rightarrow> u32 \<Rightarrow> fault + u32" where
  "next_cluster disk ps bs cluster =
     (case read_fat_value disk ps bs cluster of
        Inl f \<Rightarrow> Inl f
      | Inr fat_value \<Rightarrow> if fat_value \<ge> 0x0FFFFFF8 then Inr 0 else Inr fat_value)"

subsection \<open>Directory entries\<close>

definition entry_used :: "cluster_entry \<Rightarrow> bool" where
  "entry_used entry = (name entry ! 0 \<noteq> 0xE5)"

definition end_of_directory :: "cluster_entry \<Rightarrow> bool" where
  "end_of_directory entry = (name entry ! 0 = 0x0)"

definition is_long_name :: "cluster_entry \<Rightarrow> bool" where
  "is_long_name entry = (attrib entry = 0x0F)"

function filename_length_loop :: "u8 list \<Rightarrow> nat \<Rightarrow> nat" where
  "filename_length_loop filename s =
     (if s < 11
      then (if filename ! s = 0x20 then s else filename_length_loop filename (Suc s))
      else 11)"
  by pat_completeness auto
termination
  by (relation "measure (\<lambda>(filename, s). 11 - s)") auto

declare filename_length_loop.simps [simp del]

definition filename_length :: "u8 list \<Rightarrow> nat" where
  "filename_length filename = filename_length_loop filename 0"

function filename_equals_loop :: "u8 list \<Rightarrow> u8 list \<Rightarrow> nat \<Rightarrow> nat \<Rightarrow> bool" where
  "filename_equals_loop nm path len i =
     (if i < len
      then (if path ! i \<noteq> nm ! i then False else filename_equals_loop nm path len (Suc i))
      else True)"
  by pat_completeness auto
termination
  by (relation "measure (\<lambda>(nm, path, len, i). len - i)") auto

declare filename_equals_loop.simps [simp del]

definition filename_equals :: "u8 list \<Rightarrow> u8 list \<Rightarrow> bool" where
  "filename_equals nm path =
     (let len = filename_length nm
      in if length path \<noteq> len then False else filename_equals_loop nm path len 0)"

subsection \<open>Path resolver\<close>

text \<open>
  The \<open>for\<close> loop over the entries of \<open>current_cluster\<close> in \<open>find_cluster_number\<close>
  leaves in one of three ways: at an end-of-directory entry (\<open>end_reached = true; break\<close>),
  at the first used, short-name, directory entry whose name equals the segment (every
  path from there returns or breaks), or after the last entry.
\<close>

datatype scan = EndReached | Matched cluster_entry | Exhausted

fun find_for :: "u8 list \<Rightarrow> cluster_entry list \<Rightarrow> scan" where
  "find_for p [] = Exhausted"
| "find_for p (entry # rest) =
     (if end_of_directory entry then EndReached
      else if entry_used entry \<and> \<not> is_long_name entry \<and> attrib entry AND 0x10 \<noteq> 0
              \<and> filename_equals (name entry) p
      then Matched entry
      else find_for p rest)"

text \<open>
  The \<open>while(!found)\<close> loop for one segment \<open>p\<close>; \<open>is_last\<close> is \<open>i == path.size() - 1\<close>.
  Its state is \<open>cluster_number\<close>, \<open>current_cluster\<close> and \<open>end_reached\<close>. It leaves by a
  \<open>return\<close> of the whole function, or with \<open>found\<close> set and the next directory's first
  cluster in \<open>current_cluster\<close>. When the \<open>for\<close> loop ends without a match and
  \<open>end_reached\<close> is set, the body changes nothing and \<open>!found\<close> still holds.
\<close>

datatype segment_result = Return "bool \<times> u32" | Found u32 "cluster_entry list"

partial_function (option) find_while ::
  "dd \<Rightarrow> u64 \<Rightarrow> fat_bs_t \<Rightarrow> u8 list \<Rightarrow> bool \<Rightarrow> u32 \<Rightarrow> cluster_entry list \<Rightarrow> bool
     \<Rightarrow> (fault + segment_result) option" where
  "find_while disk ps bs p is_last cluster_number current_cluster end_reached =
     (case find_for p current_cluster of
        Matched entry \<Rightarrow>
          (let cluster_number' =
                 (ucast (cluster_low entry) + push_bit 16 (ucast (cluster_high entry)) :: u32)
           in if is_last then Some (Inr (Return (True, cluster_number')))
              else
                (case read_sectors disk (cluster_lba ps bs (ucast cluster_number'))
                        (unat (sectors_per_cluster bs)) of
                   Some buf \<Rightarrow> Some (Inr (Found cluster_number' (cluster_entries bs buf)))
                 | None \<Rightarrow> Some (Inr (Return (False, 0)))))
      | EndReached \<Rightarrow>
          find_while disk ps bs p is_last cluster_number current_cluster True
      | Exhausted \<Rightarrow>
          (if \<not> end_reached
           then
             (case next_cluster disk ps bs cluster_number of
                Inl f \<Rightarrow> Some (Inl f)
              | Inr next \<Rightarrow>
                  (if next = 0 then Some (Inr (Return (False, 0)))
                   else if next = 0x0FFFFFF7 then Some (Inr (Return (False, 0)))
                   else
                     (case read_sectors disk (cluster_lba ps bs (ucast next))
                             (unat (sectors_per_cluster bs)) of
                        None \<Rightarrow> Some (Inr (Return (False, 0)))
                      | Some buf \<Rightarrow>
                          find_while disk ps bs p is_last next (cluster_entries bs buf)
                            end_reached)))
           else find_while disk ps bs p is_last cluster_number current_cluster end_reached))"

text \<open>The \<open>for\<close> loop over the path segments. \<open>end_reached\<close> is declared in its body,
  so every segment starts with it false. \<open>None\<close>: the segment's loop never returns.\<close>

fun find_segments ::
  "dd \<Rightarrow> u64 \<Rightarrow> fat_bs_t \<Rightarrow> u8 list list \<Rightarrow> u32 \<Rightarrow> cluster_entry list
     \<Rightarrow> (fault + bool \<times> u32) option" where
  "find_segments disk ps bs [] cluster_number current_cluster = Some (Inr (False, 0))"
| "find_segments disk ps bs (p # rest) cluster_number current_cluster =
     (case find_while disk ps bs p (rest = []) cluster_number current_cluster False of
        None \<Rightarrow> None
      | Some (Inl f) \<Rightarrow> Some (Inl f)
      | Some (Inr (Return r)) \<Rightarrow> Some (Inr r)
      | Some (Inr (Found cluster_number' current_cluster')) \<Rightarrow>
          find_segments disk ps bs rest cluster_number' current_cluster')"

definition find_cluster_number ::
  "dd \<Rightarrow> u64 \<Rightarrow> fat_bs_t \<Rightarrow> u8 list list \<Rightarrow> (fault + bool \<times> u32) option" where
  "find_cluster_number disk ps bs path =
     (if path = [] then Some (Inr (True, root_directory_cluster_start bs))
      else
        (let cluster_number = root_directory_cluster_start bs;
             cluster_addr = cluster_lba ps bs (ucast cluster_number)
         in case read_sectors disk cluster_addr (unat (sectors_per_cluster bs)) of
              Some buf \<Rightarrow> find_segments disk ps bs path cluster_number (cluster_entries bs buf)
            | None \<Rightarrow> Some (Inr (False, 0))))"

definition find_directory_cluster ::
  "dd \<Rightarrow> u64 \<Rightarrow> fat_bs_t \<Rightarrow> u8 list list \<Rightarrow> (fault + bool \<times> cluster_entry list) option" where
  "find_directory_cluster disk ps bs path =
     (case find_cluster_number disk ps bs path of
        None \<Rightarrow> None
      | Some (Inl f) \<Rightarrow> Some (Inl f)
      | Some (Inr (ok, cluster_number)) \<Rightarrow>
          (if ok
           then
             (case read_sectors disk (cluster_lba ps bs (ucast cluster_number))
                     (unat (sectors_per_cluster bs)) of
                Some buf \<Rightarrow> Some (Inr (True, cluster_entries bs buf))
              | None \<Rightarrow> Some (Inr (False, [])))
           else Some (Inr (False, []))))"

subsection \<open>Directory lister\<close>

text \<open>\<open>disks::file\<close> is declared outside this file; the driver sets the five fields
  below. \<open>fsize\<close> is its \<open>size\<close>, in bytes.\<close>

record disk_file =
  file_name :: "u8 list"
  hidden :: bool
  system :: bool
  directory :: bool
  fsize :: nat

function copy_name_loop :: "u8 list \<Rightarrow> nat \<Rightarrow> u8 list \<Rightarrow> u8 list" where
  "copy_name_loop nm s acc =
     (if s < 11
      then (if nm ! s = 0x20 then acc else copy_name_loop nm (Suc s) (acc @ [nm ! s]))
      else acc)"
  by pat_completeness auto
termination
  by (relation "measure (\<lambda>(nm, s, acc). 11 - s)") auto

declare copy_name_loop.simps [simp del]

definition make_file :: "fat_bs_t \<Rightarrow> cluster_entry \<Rightarrow> disk_file" where
  "make_file bs entry =
     \<lparr>file_name =
        (if is_long_name entry then [0x4C, 0x4F, 0x4E, 0x47]
         else copy_name_loop (name entry) 0 []),
      hidden = (attrib entry AND 0x1 \<noteq> 0),
      system = (attrib entry AND 0x2 \<noteq> 0),
      directory = (attrib entry AND 0x10 \<noteq> 0),
      fsize =
        (if attrib entry AND 0x10 \<noteq> 0 then unat (sectors_per_cluster bs) * 512
         else unat (file_size entry))\<rparr>"

text \<open>The \<open>for\<close> loop over one cluster's entries in \<open>files\<close>: the records pushed so far
  and whether an end-of-directory entry was met.\<close>

fun files_for :: "fat_bs_t \<Rightarrow> cluster_entry list \<Rightarrow> disk_file list \<Rightarrow> disk_file list \<times> bool" where
  "files_for bs [] files = (files, False)"
| "files_for bs (entry # rest) files =
     (if end_of_directory entry then (files, True)
      else if entry_used entry then files_for bs rest (files @ [make_file bs entry])
      else files_for bs rest files)"

text \<open>
  The \<open>while(!end_reached)\<close> loop of \<open>files\<close>. \<open>cluster_number\<close> is declared inside the
  loop body and initialised there from \<open>cluster_number_search.second\<close>: the assignment
  \<open>cluster_number = next\<close> at the end of the body writes a variable that goes out of
  scope, and the next iteration starts from the searched cluster again. The loop's
  state is the vector \<open>files\<close> alone.
\<close>

partial_function (option) files_while ::
  "dd \<Rightarrow> u64 \<Rightarrow> fat_bs_t \<Rightarrow> u32 \<Rightarrow> disk_file list \<Rightarrow> (fault + disk_file list) option" where
  "files_while disk ps bs searched files =
     (let cluster_number = searched
      in case read_sectors disk (cluster_lba ps bs (ucast cluster_number))
                (unat (sectors_per_cluster bs)) of
           None \<Rightarrow> Some (Inr files)
         | Some buf \<Rightarrow>
             (case files_for bs (cluster_entries bs buf) files of
                (files', end_reached) \<Rightarrow>
                  (if end_reached then Some (Inr files')
                   else
                     (case next_cluster disk ps bs cluster_number of
                        Inl f \<Rightarrow> Some (Inl f)
                      | Inr next \<Rightarrow>
                          (if next = 0 then Some (Inr files')
                           else if next = 0x0FFFFFF7 then Some (Inr files')
                           else files_while disk ps bs searched files')))))"

definition files :: "dd \<Rightarrow> u64 \<Rightarrow> fat_bs_t \<Rightarrow> u8 list list \<Rightarrow> (fault + disk_file list) option" where
  "files disk ps bs path =
     (case find_cluster_number disk ps bs path of
        None \<Rightarrow> None
      | Some (Inl f) \<Rightarrow> Some (Inl f)
      | Some (Inr (ok, cluster_number)) \<Rightarrow>
          (if \<not> ok then Some (Inr []) else files_while disk ps bs cluster_number []))"

subsection \<open>The public operations\<close>

text \<open>
  Each returns its result with the globals as it leaves them. In \<open>free_size\<close> the
  product is computed in \<open>uint32_t\<close>: \<open>free_clusters\<close> is a \<open>uint32_t\<close>, the other two
  operands are promoted to \<open>int\<close> and converted to it; the result is then widened to the
  \<open>uint64_t\<close> the function returns.
\<close>

definition free_size :: "dd \<Rightarrow> partition_descriptor \<Rightarrow> cache \<Rightarrow> fault + (u64 \<times> cache)" where
  "free_size disk part st =
     (case cache_disk_partition disk part st of
        Inl f \<Rightarrow> Inl f
      | Inr (ok, st') \<Rightarrow>
          (if \<not> ok then Inr (0, st')
           else
             (case (fat_is st', fat_bs st') of
                (Some fis, Some bs) \<Rightarrow>
                  Inr (ucast (free_clusters fis * ucast (sectors_per_cluster bs) * 512 :: u32),
                       st')
              | _ \<Rightarrow> Inl NullPointer)))"

definition ls ::
  "dd \<Rightarrow> partition_descriptor \<Rightarrow> u8 list list \<Rightarrow> cache
     \<Rightarrow> (fault + (disk_file list \<times> cache)) option" where
  "ls disk part path st =
     (case cache_disk_partition disk part st of
        Inl f \<Rightarrow> Some (Inl f)
      | Inr (ok, st') \<Rightarrow>
          (if \<not> ok then Some (Inr ([], st'))
           else
             (case fat_bs st' of
                None \<Rightarrow> Some (Inl NullPointer)
              | Some bs \<Rightarrow>
                  (case files disk (partition_start st') bs path of
                     None \<Rightarrow> None
                   | Some (Inl f) \<Rightarrow> Some (Inl f)
                   | Some (Inr fs) \<Rightarrow> Some (Inr (fs, st'))))))"

subsection \<open>File reader\<close>

text \<open>The \<open>for\<close> loop over the directory's first cluster in \<open>read_file\<close>: the first
  used, short-name, non-directory entry named \<open>file\<close> that comes before any
  end-of-directory entry.\<close>

fun read_for :: "u8 list \<Rightarrow> cluster_entry list \<Rightarrow> cluster_entry option" where
  "read_for f [] = None"
| "read_for f (entry # rest) =
     (if end_of_directory entry then None
      else if entry_used entry \<and> \<not> is_long_name entry \<and> \<not> (attrib entry AND 0x10 \<noteq> 0)
              \<and> filename_equals (name entry) f
      then Some entry
      else read_for f rest)"

text \<open>The inner loop
  \<open>for(size_t i = 0; i < cluster_size && read < entry.file_size; ++i, ++read)\<close>,
  which appends \<open>sector[i]\<close> to \<open>content\<close>.\<close>

function copy_for :: "u8 list \<Rightarrow> nat \<Rightarrow> nat \<Rightarrow> nat \<Rightarrow> nat \<Rightarrow> u8 list \<Rightarrow> nat \<times> u8 list" where
  "copy_for sector cluster_size fsz i read content =
     (if i < cluster_size \<and> read < fsz
      then copy_for sector cluster_size fsz (Suc i) (Suc read) (content @ [sector ! i])
      else (read, content))"
  by pat_completeness auto
termination
  by (relation "measure (\<lambda>(sector, cluster_size, fsz, i, read, content). cluster_size - i)") auto

declare copy_for.simps [simp del]

text \<open>
  The \<open>while(read < entry.file_size)\<close> loop of \<open>read_file\<close>. \<open>cluster\<close> is declared
  \<open>auto\<close> from an \<open>int\<close> expression: it holds the 32 bits and is sign-extended where
  \<open>cluster_lba\<close> takes it as a \<open>uint64_t\<close>. The loop ends: each round that goes on
  has appended a whole cluster, and \<open>next_cluster\<close> returns only when a cluster is not
  empty.
\<close>

function read_while ::
  "dd \<Rightarrow> u64 \<Rightarrow> fat_bs_t \<Rightarrow> u32 \<Rightarrow> u32 \<Rightarrow> nat \<Rightarrow> u8 list \<Rightarrow> fault + u8 list" where
  "read_while disk ps bs fsz cluster read content =
     (if read < unat fsz
      then
        (let cluster_size = 512 * unat (sectors_per_cluster bs)
         in case read_sectors disk (cluster_lba ps bs (scast cluster))
                   (unat (sectors_per_cluster bs)) of
              None \<Rightarrow> Inr content
            | Some sector \<Rightarrow>
                (case copy_for sector cluster_size (unat fsz) 0 read content of
                   (read', content') \<Rightarrow>
                     (if read' < unat fsz
                      then
                        (case next_cluster disk ps bs cluster of
                           Inl f \<Rightarrow> Inl f
                         | Inr next \<Rightarrow>
                             (if next = 0 then Inr content'
                              else if next = 0x0FFFFFF7 then Inr content'
                              else read_while disk ps bs fsz next read' content'))
                      else read_while disk ps bs fsz cluster read' content')))
      else Inr content)"
  by pat_completeness auto
termination
proof (relation "measure (\<lambda>(disk, ps, bs, fsz, cluster, read, content). unat fsz - read)",
    goal_cases)
  case 1
  show ?case by simp
next
  case (2 disk ps bs fsz cluster read content cs sector read' content' n)
  have copied: "fst (copy_for sec c f i r acc) = r + min (c - i) (f - r)" for sec c f i r acc
  proof (induction sec c f i r acc rule: copy_for.induct)
    case (1 sec c f i r acc)
    show ?case
    proof (cases "i < c \<and> r < f")
      case True
      then have "min (c - i) (f - r) = Suc (min (c - Suc i) (f - Suc r))"
        by (auto simp: min_def)
      with True 1 show ?thesis
        by (subst copy_for.simps) simp
    next
      case False
      then show ?thesis
        by (subst copy_for.simps) (auto simp: min_def)
    qed
  qed
  from \<open>next_cluster disk ps bs cluster = Inr n\<close> have "sectors_per_cluster bs \<noteq> 0"
    by (auto simp: next_cluster_def read_fat_value_def Let_def split: sum.splits if_splits)
  then have "0 < cs"
    using \<open>cs = 512 * unat (sectors_per_cluster bs)\<close> by (simp add: unat_gt_0)
  moreover have "read' = read + min (cs - 0) (unat fsz - read)"
    using copied [of sector cs "unat fsz" 0 read content]
      \<open>(read', content') = copy_for sector cs (unat fsz) 0 read content\<close> [symmetric]
    by simp
  ultimately have "read < read'"
    using \<open>read < unat fsz\<close> by simp
  with \<open>read' < unat fsz\<close> show ?case by simp
next
  case (3 disk ps bs fsz cluster read content cs sector read' content')
  from \<open>\<not> read' < unat fsz\<close> \<open>read < unat fsz\<close> show ?case by simp
qed

declare read_while.simps [simp del]

text \<open>\<open>std::string content(entry.file_size + 1)\<close> is taken to be the empty string with
  that capacity (the string class is declared outside this file): every byte of the
  result comes from \<open>content += sector[i]\<close>.\<close>

definition read_file ::
  "dd \<Rightarrow> partition_descriptor \<Rightarrow> u8 list list \<Rightarrow> u8 list \<Rightarrow> cache
     \<Rightarrow> (fault + (u8 list \<times> cache)) option" where
  "read_file disk part path f st =
     (case cache_disk_partition disk part st of
        Inl e \<Rightarrow> Some (Inl e)
      | Inr (ok, st') \<Rightarrow>
          (if \<not> ok then Some (Inr ([], st'))
           else
             (case fat_bs st' of
                None \<Rightarrow> Some (Inl NullPointer)
              | Some bs \<Rightarrow>
                  (case find_directory_cluster disk (partition_start st') bs path of
                     None \<Rightarrow> None
                   | Some (Inl e) \<Rightarrow> Some (Inl e)
                   | Some (Inr (found_dir, directory_cluster)) \<Rightarrow>
                       (if found_dir
                        then
                          (case read_for f directory_cluster of
                             Some entry \<Rightarrow>
                               (let cluster =
                                      (ucast (cluster_low entry)
                                         + push_bit 16 (ucast (cluster_high entry)) :: u32)
                                in case read_while disk (partition_start st') bs
                                          (file_size entry) cluster 0 [] of
                                     Inl e \<Rightarrow> Some (Inl e)
                                   | Inr content \<Rightarrow> Some (Inr (content, st')))
                           | None \<Rightarrow> Some (Inr ([], st')))
                        else Some (Inr ([], st')))))))"

subsection \<open>Definitions the statements use\<close>

text \<open>The 32-bit entry \<open>fat_table[entry_offset]\<close> that \<open>read_fat_value\<close> extracts,
  before the mask is applied; \<open>None\<close> when the read of the FAT fails.\<close>

definition fat_entry_raw :: "dd \<Rightarrow> u64 \<Rightarrow> fat_bs_t \<Rightarrow> u32 \<Rightarrow> u32 option" where
  "fat_entry_raw disk ps bs cluster =
     (let fat_begin = ps + ucast (reserved_sectors bs);
          cluster_size = (512 * ucast (sectors_per_cluster bs) :: u32);
          fat_sector = fat_begin + ucast ((cluster * 4) div cluster_size);
          entry_offset = (ucast (((cluster * 4) mod cluster_size) div 4) :: u64)
      in map_option (\<lambda>fat_table. u32_at fat_table (4 * unat entry_offset))
           (read_sectors disk fat_sector (unat (sectors_per_cluster bs))))"

text \<open>
  Modelled from the spec: the 11-byte padded field of an 8.3 name, the base padded with
  spaces to 8 bytes and the extension to 3 ("FOO     TXT" for FOO.TXT). The driver
  has no encoder; the field is what it finds in a directory entry.
\<close>

definition pad_8_3 :: "u8 list \<Rightarrow> u8 list \<Rightarrow> u8 list" where
  "pad_8_3 base ext =
     base @ replicate (8 - length base) 0x20 @ ext @ replicate (3 - length ext) 0x20"

text \<open>
  The content claim C4 describes, following its words: from each cluster of the
  file's chain the first \<open>min(cluster_size, remaining)\<close> bytes, moving to the successor
  \<open>next_cluster\<close> gives after each cluster, until the declared size is reached, a
  read fails, there is no successor (0), or the successor is \<open>0x0FFFFFF7\<close>.
  \<open>remaining\<close> is what is still missing of the declared size. The cluster's address
  is the driver's \<open>cluster_lba\<close>; a geometry of no sector per cluster has no chain.
\<close>

function chain_bytes :: "dd \<Rightarrow> u64 \<Rightarrow> fat_bs_t \<Rightarrow> u32 \<Rightarrow> nat \<Rightarrow> u8 list" where
  "chain_bytes disk ps bs cluster remaining =
     (if remaining = 0 \<or> sectors_per_cluster bs = 0 then []
      else
        (case read_sectors disk (cluster_lba ps bs (scast cluster))
                (unat (sectors_per_cluster bs)) of
           None \<Rightarrow> []
         | Some block \<Rightarrow>
             take (min (512 * unat (sectors_per_cluster bs)) remaining) block
               @ (if remaining \<le> 512 * unat (sectors_per_cluster bs) then []
                  else
                    (case next_cluster disk ps bs cluster of
                       Inl f \<Rightarrow> []
                     | Inr successor \<Rightarrow>
                         (if successor = 0 \<or> successor = 0x0FFFFFF7 then []
                          else chain_bytes disk ps bs successor
                                 (remaining - 512 * unat (sectors_per_cluster bs)))))))"
  by pat_completeness auto
termination
  by (relation "measure (\<lambda>(disk, ps, bs, cluster, remaining). remaining)")
    (auto simp: unat_gt_0)

declare chain_bytes.simps [simp del]

subsection \<open>Sample geometries and volumes\<close>

text \<open>The geometry of the spec's scenario (its FS-information sector is not given), and
  a geometry whose FAT product does not fit 32 bits.\<close>

definition scenario_bs :: fat_bs_t where
  "scenario_bs =
     \<lparr>sectors_per_cluster = 8, reserved_sectors = 32, number_of_fat = 2,
      sectors_per_fat_long = 100, root_directory_cluster_start = 2,
      fs_information_sector = 1\<rparr>"

definition wrapping_bs :: fat_bs_t where
  "wrapping_bs =
     \<lparr>sectors_per_cluster = 2, reserved_sectors = 0, number_of_fat = 2,
      sectors_per_fat_long = 0x80000000, root_directory_cluster_start = 2,
      fs_information_sector = 1\<rparr>"

text \<open>
  A small volume, one sector per cluster, at partition start 0: boot sector at LBA 0,
  FS-information sector at 1, one FAT of one sector at 2, data from 3 (cluster 2 is
  LBA 3). The root directory is the chain 2, 3: cluster 2 holds the file \<open>FOO\<close>
  (first cluster 4, 515 bytes) and fifteen more used file entries whose bytes are
  all \<open>0x41\<close>, cluster 3 is all zero. FAT entries: 2 is 3; 3 is \<open>0xFFFFFFFF\<close>;
  4 is 5; 5 is \<open>0xF0000000\<close>; 6 is \<open>0x0FFFFFF7\<close>. Clusters 4 and 5 hold the
  file's bytes, \<open>0x61\<close> and \<open>0x62\<close>. \<open>sample_bs\<close> is its boot sector decoded,
  \<open>sample_cache\<close> the globals once it is cached.
\<close>

definition sample_boot :: "u8 list" where
  "sample_boot = (replicate 512 0)[13 := 1, 14 := 2, 16 := 1, 36 := 1, 44 := 2, 48 := 1]"

definition sample_fsinfo :: "u8 list" where
  "sample_fsinfo = (replicate 512 0)[488 := 100]"

definition sample_fat :: "u8 list" where
  "sample_fat =
     (replicate 512 0)[8 := 3, 12 := 0xFF, 13 := 0xFF, 14 := 0xFF, 15 := 0xFF, 16 := 5,
        23 := 0xF0, 24 := 0xF7, 25 := 0xFF, 26 := 0xFF, 27 := 0x0F]"

definition sample_root :: "u8 list" where
  "sample_root =
     [0x46, 0x4F, 0x4F] @ replicate 8 0x20 @ [0x20] @ replicate 14 0 @ [4, 0, 3, 2, 0, 0]
       @ replicate 480 0x41"

definition sample_disk :: dd where
  "sample_disk =
     \<lparr>disk_uuid = 1,
      sectors = (\<lambda>lba.
        if lba = 0 then Some sample_boot
        else if lba = 1 then Some sample_fsinfo
        else if lba = 2 then Some sample_fat
        else if lba = 3 then Some sample_root
        else if lba = 4 then Some (replicate 512 0)
        else if lba = 5 then Some (replicate 512 0x61)
        else if lba = 6 then Some (replicate 512 0x62)
        else None)\<rparr>"

definition sample_partition :: partition_descriptor where
  "sample_partition = \<lparr>partition_uuid = 1, start = 0\<rparr>"

definition sample_bs :: fat_bs_t where
  "sample_bs =
     \<lparr>sectors_per_cluster = 1, reserved_sectors = 2, number_of_fat = 1,
      sectors_per_fat_long = 1, root_directory_cluster_start = 2,
      fs_information_sector = 1\<rparr>"

definition sample_cache :: cache where
  "sample_cache =
     \<lparr>cached_disk = 1, cached_partition = 1, partition_start = 0,
      fat_bs = Some sample_bs,
      fat_is = Some \<lparr>free_clusters = 100, allocated_clusters = 0\<rparr>\<rparr>"

text \<open>A volume of 4 KiB clusters whose FS-information sector records \<open>0x100000\<close> free
  clusters, that is 4 GiB, and a disk no sector of which can be read.\<close>

definition big_boot :: "u8 list" where
  "big_boot = (replicate 512 0)[13 := 8, 14 := 32, 16 := 2, 37 := 0x20, 44 := 2, 48 := 1]"

definition big_fsinfo :: "u8 list" where
  "big_fsinfo = (replicate 512 0)[490 := 0x10]"

definition big_disk :: dd where
  "big_disk =
     \<lparr>disk_uuid = 2,
      sectors = (\<lambda>lba.
        if lba = 0 then Some big_boot else if lba = 1 then Some big_fsinfo else None)\<rparr>"

definition big_bs :: fat_bs_t where
  "big_bs =
     \<lparr>sectors_per_cluster = 8, reserved_sectors = 32, number_of_fat = 2,
      sectors_per_fat_long = 0x2000, root_directory_cluster_start = 2,
      fs_information_sector = 1\<rparr>"

definition dead_disk :: dd where
  "dead_disk = \<lparr>disk_uuid = 3, sectors = (\<lambda>lba. None)\<rparr>"

section \<open>Properties\<close>

subsection \<open>Words, bytes and sectors\<close>

lemma mask28: "(x :: u32) AND 0x0FFFFFFF = take_bit 28 x"
proof -
  have "(0x0FFFFFFF :: u32) = mask 28" by (simp add: mask_eq_exp_minus_1)
  then show ?thesis by (simp add: take_bit_eq_mask)
qed

lemma mask28_less: "(x :: u32) AND 0x0FFFFFFF < 2 ^ 28"
proof -
  have "(0x0FFFFFFF :: u32) = mask 28" by (simp add: mask_eq_exp_minus_1)
  then show ?thesis using and_mask_less' [of 28 x] by simp
qed

lemma unat_ucast_u8_u32: "unat (ucast (x :: u8) :: u32) = unat x"
  by (simp add: unsigned_ucast_eq take_bit_nat_eq_self_iff) (use unsigned_less [of x, where 'a = nat] in simp)

lemma unat_ucast_u8_u64: "unat (ucast (x :: u8) :: u64) = unat x"
  by (simp add: unsigned_ucast_eq take_bit_nat_eq_self_iff) (use unsigned_less [of x, where 'a = nat] in simp)

lemma unat_ucast_u16_u64: "unat (ucast (x :: u16) :: u64) = unat x"
  by (simp add: unsigned_ucast_eq take_bit_nat_eq_self_iff) (use unsigned_less [of x, where 'a = nat] in simp)

lemma unat_ucast_u32_u64: "unat (ucast (x :: u32) :: u64) = unat x"
  by (simp add: unsigned_ucast_eq take_bit_nat_eq_self_iff) (use unsigned_less [of x, where 'a = nat] in simp)

lemma cluster_size_zero:
  "(512 * ucast (sectors_per_cluster bs) :: u32) = 0 \<longleftrightarrow> sectors_per_cluster bs = 0"
proof -
  have "unat (sectors_per_cluster bs) < 256"
    using unsigned_less [of "sectors_per_cluster bs", where 'a = nat] by simp
  then have "unat (512 * ucast (sectors_per_cluster bs) :: u32) = 512 * unat (sectors_per_cluster bs)"
    by (simp add: unat_word_ariths unat_ucast_u8_u32)
  then show ?thesis
    by (metis mult_eq_0_iff unat_eq_0 zero_neq_numeral)
qed

lemma sector_bytes_512: "length s = 512 \<Longrightarrow> sector_bytes s = s"
  by (simp add: sector_bytes_def)

lemma read_one: "read_sectors disk lba (Suc 0) = map_option sector_bytes (sectors disk lba)"
  by (simp add: read_sectors.simps split: option.splits)

lemma read_sectors_length: "read_sectors disk lba n = Some buf \<Longrightarrow> length buf = 512 * n"
  by (induction n arbitrary: lba buf)
    (auto simp: read_sectors.simps sector_bytes_def split: option.splits)

lemma upt_16: "[0..<16] = [0, 1, 2, 3, 4, 5, 6, 7, 8, 9, 10, 11, 12, 13, 14, 15]"
  by (simp add: upt_conv_Cons)

subsection \<open>The sample volumes, evaluated\<close>

lemma sample_lengths:
  "length sample_boot = 512" "length sample_fsinfo = 512" "length sample_fat = 512"
  "length sample_root = 512"
  by (simp_all add: sample_boot_def sample_fsinfo_def sample_fat_def sample_root_def)

lemma sample_sectors:
  "read_sectors sample_disk 0 (Suc 0) = Some sample_boot"
  "read_sectors sample_disk 1 (Suc 0) = Some sample_fsinfo"
  "read_sectors sample_disk 2 (Suc 0) = Some sample_fat"
  "read_sectors sample_disk 3 (Suc 0) = Some sample_root"
  "read_sectors sample_disk 4 (Suc 0) = Some (replicate 512 0)"
  "read_sectors sample_disk 5 (Suc 0) = Some (replicate 512 0x61)"
  "read_sectors sample_disk 6 (Suc 0) = Some (replicate 512 0x62)"
  by (simp_all add: read_one sample_disk_def sector_bytes_512 sample_lengths)

lemma decode_sample_boot: "decode_bs sample_boot = sample_bs"
  by (simp add: decode_bs_def sample_boot_def sample_bs_def u16_at_def u32_at_def)

lemma sample_bs_fields:
  "sectors_per_cluster sample_bs = 1" "reserved_sectors sample_bs = 2"
  "number_of_fat sample_bs = 1" "sectors_per_fat_long sample_bs = 1"
  "root_directory_cluster_start sample_bs = 2" "fs_information_sector sample_bs = 1"
  by (simp_all add: sample_bs_def)

lemma decode_sample_fsinfo:
  "decode_is sample_fsinfo = \<lparr>free_clusters = 100, allocated_clusters = 0\<rparr>"
  by (simp add: decode_is_def u32_at_def sample_fsinfo_def)

lemma sample_uuids: "disk_uuid sample_disk = 1" "partition_uuid sample_partition = 1"
  "start sample_partition = 0"
  by (simp_all add: sample_disk_def sample_partition_def)

lemma sample_fat_entries:
  "u32_at sample_fat 8 = 3" "u32_at sample_fat 12 = 0xFFFFFFFF" "u32_at sample_fat 16 = 5"
  "u32_at sample_fat 20 = 0xF0000000" "u32_at sample_fat 24 = 0x0FFFFFF7"
  by (simp_all add: sample_fat_def u32_at_def)

lemma sample_cluster_lba:
  "cluster_lba 0 sample_bs 2 = 3" "cluster_lba 0 sample_bs 3 = 4"
  "cluster_lba 0 sample_bs 4 = 5" "cluster_lba 0 sample_bs 5 = 6"
  by (simp_all add: cluster_lba_def sample_bs_fields)

lemma big_sectors:
  "read_sectors big_disk 0 (Suc 0) = Some big_boot"
  "read_sectors big_disk 1 (Suc 0) = Some big_fsinfo"
  by (simp_all add: read_one big_disk_def sector_bytes_512 big_boot_def big_fsinfo_def)

lemma decode_big_boot: "decode_bs big_boot = big_bs"
  by (simp add: decode_bs_def big_boot_def big_bs_def u16_at_def u32_at_def)

lemma big_bs_fields:
  "sectors_per_cluster big_bs = 8" "fs_information_sector big_bs = 1"
  by (simp_all add: big_bs_def)

lemma decode_big_fsinfo:
  "decode_is big_fsinfo = \<lparr>free_clusters = 0x100000, allocated_clusters = 0\<rparr>"
  by (simp add: decode_is_def u32_at_def big_fsinfo_def)

lemma big_uuid: "disk_uuid big_disk = 2"
  by (simp add: big_disk_def)

lemma dead_read: "read_sectors dead_disk lba (Suc n) = None"
  by (simp add: read_sectors.simps dead_disk_def)

subsection \<open>Address translation\<close>

lemma cluster_lba_unat:
  assumes "unat (number_of_fat bs) * unat (sectors_per_fat_long bs) < 2 ^ 32"
    and "2 \<le> cluster"
    and "unat ps + unat (reserved_sectors bs)
           + unat (number_of_fat bs) * unat (sectors_per_fat_long bs)
           + (unat cluster - 2) * unat (sectors_per_cluster bs) < 2 ^ 64"
  shows "unat (cluster_lba ps bs cluster) =
           unat ps + unat (reserved_sectors bs)
           + unat (number_of_fat bs) * unat (sectors_per_fat_long bs)
           + (unat cluster - 2) * unat (sectors_per_cluster bs)"
proof -
  let ?r = "ucast (reserved_sectors bs) :: u64"
  let ?p = "(ucast (number_of_fat bs) :: u32) * sectors_per_fat_long bs"
  let ?m = "(cluster - 2) * (ucast (sectors_per_cluster bs) :: u64)"
  have prod: "unat ?p = unat (number_of_fat bs) * unat (sectors_per_fat_long bs)"
    using assms(1) unat_mult_lem [of "ucast (number_of_fat bs) :: u32" "sectors_per_fat_long bs"]
    by (simp add: unat_ucast_u8_u32)
  have sub: "unat (cluster - 2) = unat cluster - 2"
    using assms(2) by (simp add: unat_sub)
  have mul: "unat ?m = (unat cluster - 2) * unat (sectors_per_cluster bs)"
    using assms(3) unat_mult_lem [of "cluster - 2" "ucast (sectors_per_cluster bs) :: u64"]
    by (simp add: unat_ucast_u8_u64 sub)
  have fb: "unat (ps + ?r) = unat ps + unat (reserved_sectors bs)"
    using assms(3) unat_add_lem [of ps ?r]
    by (simp add: unat_ucast_u16_u64)
  have cb: "unat (ps + ?r + ucast ?p) =
      unat ps + unat (reserved_sectors bs)
        + unat (number_of_fat bs) * unat (sectors_per_fat_long bs)"
    using assms(3) unat_add_lem [of "ps + ?r" "ucast ?p :: u64"]
    by (simp add: unat_ucast_u32_u64 prod fb)
  have "unat (ps + ?r + ucast ?p + ?m) =
      unat ps + unat (reserved_sectors bs)
        + unat (number_of_fat bs) * unat (sectors_per_fat_long bs)
        + (unat cluster - 2) * unat (sectors_per_cluster bs)"
    using assms(3) unat_add_lem [of "ps + ?r + ucast ?p" ?m]
    by (simp add: mul cb)
  then show ?thesis
    by (simp add: cluster_lba_def Let_def)
qed

lemma cluster_lba_mono:
  assumes "sectors_per_cluster bs \<noteq> 0"
    and "unat (number_of_fat bs) * unat (sectors_per_fat_long bs) < 2 ^ 32"
    and "2 \<le> c" and "c < cluster"
    and "unat ps + unat (reserved_sectors bs)
           + unat (number_of_fat bs) * unat (sectors_per_fat_long bs)
           + (unat cluster - 2) * unat (sectors_per_cluster bs) < 2 ^ 64"
  shows "cluster_lba ps bs c < cluster_lba ps bs cluster"
proof -
  have lt: "unat c < unat cluster" and le: "2 \<le> unat c"
    using assms(3,4) by (simp_all add: word_less_nat_alt word_le_nat_alt)
  have pos: "0 < unat (sectors_per_cluster bs)"
    using assms(1) by (simp add: unat_gt_0)
  have m: "(unat c - 2) * unat (sectors_per_cluster bs)
      < (unat cluster - 2) * unat (sectors_per_cluster bs)"
    using lt le pos by simp
  have "2 \<le> cluster" using assms(3,4) by simp
  then have big: "unat (cluster_lba ps bs cluster) =
      unat ps + unat (reserved_sectors bs)
        + unat (number_of_fat bs) * unat (sectors_per_fat_long bs)
        + (unat cluster - 2) * unat (sectors_per_cluster bs)"
    using assms by (intro cluster_lba_unat) simp_all
  have small: "unat ps + unat (reserved_sectors bs)
        + unat (number_of_fat bs) * unat (sectors_per_fat_long bs)
        + (unat c - 2) * unat (sectors_per_cluster bs) < 2 ^ 64"
    using m assms(5) by linarith
  have "unat (cluster_lba ps bs c) =
      unat ps + unat (reserved_sectors bs)
        + unat (number_of_fat bs) * unat (sectors_per_fat_long bs)
        + (unat c - 2) * unat (sectors_per_cluster bs)"
    using assms(2,3) small by (intro cluster_lba_unat)
  with big m show ?thesis
    by (simp add: word_less_nat_alt)
qed

text \<open>
  Claim C6 as stated fails where the machine arithmetic wraps. With 2 FATs of
  \<open>0x80000000\<close> sectors the 32-bit product is 0, so cluster 2 maps to sector 0, not
  to \<open>2^32\<close>; and with 2 sectors per cluster the clusters 2 and \<open>2^63 + 2\<close> map to
  the same sector, so the map is not strictly increasing.
\<close>

theorem cluster_lba_counterexample:
  "unat (cluster_lba 0 wrapping_bs 2) \<noteq>
     unat (0 :: u64) + unat (reserved_sectors wrapping_bs)
       + unat (number_of_fat wrapping_bs) * unat (sectors_per_fat_long wrapping_bs)
       + (unat (2 :: u64) - 2) * unat (sectors_per_cluster wrapping_bs)
   \<and> sectors_per_cluster wrapping_bs \<noteq> 0 \<and> (2 :: u64) < 0x8000000000000002
   \<and> \<not> cluster_lba 0 wrapping_bs 2 < cluster_lba 0 wrapping_bs 0x8000000000000002"
  by (simp add: cluster_lba_def wrapping_bs_def)

text \<open>
  Claim C6, amended. For a geometry with \<open>sectors_per_cluster > 0\<close> and a cluster
  \<open>\<ge> 2\<close>, if \<open>number_of_fat * sectors_per_fat_long\<close> fits 32 bits and the whole sum
  fits 64 bits, \<open>cluster_lba\<close> is exactly
  \<open>partition_start + reserved_sectors + number_of_fat * sectors_per_fat_long
  + (cluster - 2) * sectors_per_cluster\<close>, and every smaller cluster \<open>\<ge> 2\<close> maps to a
  strictly smaller sector. In the spec's scenario cluster 2 is sector 2280 and cluster 3
  is sector 2288.
\<close>

theorem cluster_lba_formula:
  "(sectors_per_cluster bs \<noteq> 0 \<and> 2 \<le> cluster
      \<and> unat (number_of_fat bs) * unat (sectors_per_fat_long bs) < 2 ^ 32
      \<and> unat ps + unat (reserved_sectors bs)
           + unat (number_of_fat bs) * unat (sectors_per_fat_long bs)
           + (unat cluster - 2) * unat (sectors_per_cluster bs) < 2 ^ 64
    \<longrightarrow> unat (cluster_lba ps bs cluster) =
          unat ps + unat (reserved_sectors bs)
            + unat (number_of_fat bs) * unat (sectors_per_fat_long bs)
            + (unat cluster - 2) * unat (sectors_per_cluster bs)
        \<and> (\<forall>c. 2 \<le> c \<and> c < cluster \<longrightarrow> cluster_lba ps bs c < cluster_lba ps bs cluster))
   \<and> cluster_lba 2048 scenario_bs 2 = 2280 \<and> cluster_lba 2048 scenario_bs 3 = 2288"
proof (intro conjI impI allI)
  show "cluster_lba 2048 scenario_bs 2 = 2280" "cluster_lba 2048 scenario_bs 3 = 2288"
    by (simp_all add: cluster_lba_def scenario_bs_def)
qed (auto intro: cluster_lba_unat cluster_lba_mono)

text \<open>
  Witness for C6: the scenario's geometry satisfies the bounds, and the theorem gives
  sector 2288 for cluster 3, above the sector of cluster 2.
\<close>

theorem cluster_lba_formula_witness:
  "unat (cluster_lba 2048 scenario_bs 3) = 2288
   \<and> cluster_lba 2048 scenario_bs 2 < cluster_lba 2048 scenario_bs 3"
proof -
  have "sectors_per_cluster scenario_bs \<noteq> 0 \<and> (2 :: u64) \<le> 3
      \<and> unat (number_of_fat scenario_bs) * unat (sectors_per_fat_long scenario_bs) < 2 ^ 32
      \<and> unat (2048 :: u64) + unat (reserved_sectors scenario_bs)
           + unat (number_of_fat scenario_bs) * unat (sectors_per_fat_long scenario_bs)
           + (unat (3 :: u64) - 2) * unat (sectors_per_cluster scenario_bs) < 2 ^ 64"
    by (simp add: scenario_bs_def)
  with cluster_lba_formula [of scenario_bs 3 2048]
  have "unat (cluster_lba 2048 scenario_bs 3) =
          unat (2048 :: u64) + unat (reserved_sectors scenario_bs)
            + unat (number_of_fat scenario_bs) * unat (sectors_per_fat_long scenario_bs)
            + (unat (3 :: u64) - 2) * unat (sectors_per_cluster scenario_bs)"
    and "\<forall>c. 2 \<le> c \<and> c < 3 \<longrightarrow> cluster_lba 2048 scenario_bs c < cluster_lba 2048 scenario_bs 3"
    by blast+
  then show ?thesis
    by (simp add: scenario_bs_def)
qed

subsection \<open>FAT chain walker\<close>

lemma read_fat_value_less: "read_fat_value disk ps bs cluster = Inr v \<Longrightarrow> v < 2 ^ 28"
  using mask28_less
  by (auto simp: read_fat_value_def Let_def split: if_splits option.splits)

lemma next_cluster_less: "next_cluster disk ps bs cluster = Inr n \<Longrightarrow> n < 2 ^ 28"
  using read_fat_value_less
  by (fastforce simp: next_cluster_def split: sum.splits if_splits)

lemma read_fat_value_total:
  "sectors_per_cluster bs \<noteq> 0 \<Longrightarrow> \<exists>v. read_fat_value disk ps bs cluster = Inr v"
  by (simp add: read_fat_value_def Let_def cluster_size_zero split: option.splits)

lemma next_cluster_total:
  "sectors_per_cluster bs \<noteq> 0 \<Longrightarrow> \<exists>n. next_cluster disk ps bs cluster = Inr n"
  using read_fat_value_total [of bs disk ps cluster]
  by (auto simp: next_cluster_def)

lemma read_fat_value_raw:
  "read_fat_value disk ps bs cluster =
     (if sectors_per_cluster bs = 0 then Inl DivisionByZero
      else Inr (case fat_entry_raw disk ps bs cluster of
                  None \<Rightarrow> 0 | Some raw \<Rightarrow> raw AND 0x0FFFFFFF))"
  by (simp add: read_fat_value_def fat_entry_raw_def Let_def cluster_size_zero
      split: option.splits)

lemma next_cluster_raw:
  "next_cluster disk ps bs cluster =
     (if sectors_per_cluster bs = 0 then Inl DivisionByZero
      else Inr (case fat_entry_raw disk ps bs cluster of
                  None \<Rightarrow> 0
                | Some raw \<Rightarrow>
                    if raw AND 0x0FFFFFFF \<ge> 0x0FFFFFF8 then 0 else raw AND 0x0FFFFFFF))"
  by (simp add: next_cluster_def read_fat_value_raw split: option.splits)

lemma sample_fat_raw:
  "fat_entry_raw sample_disk 0 sample_bs 2 = Some 3"
  "fat_entry_raw sample_disk 0 sample_bs 3 = Some 0xFFFFFFFF"
  "fat_entry_raw sample_disk 0 sample_bs 4 = Some 5"
  "fat_entry_raw sample_disk 0 sample_bs 5 = Some 0xF0000000"
  "fat_entry_raw sample_disk 0 sample_bs 6 = Some 0x0FFFFFF7"
  by (simp_all add: fat_entry_raw_def sample_bs_def sample_sectors sample_fat_entries)

lemma sample_next:
  "next_cluster sample_disk 0 sample_bs 2 = Inr 3"
  "next_cluster sample_disk 0 sample_bs 3 = Inr 0"
  "next_cluster sample_disk 0 sample_bs 4 = Inr 5"
  "next_cluster sample_disk 0 sample_bs 5 = Inr 0"
  "next_cluster sample_disk 0 sample_bs 6 = Inr 0x0FFFFFF7"
  by (simp_all add: next_cluster_raw sample_fat_raw) (simp_all add: sample_bs_def)

text \<open>
  Claim C10. Every value \<open>read_fat_value\<close> returns is strictly below \<open>2^28\<close>: the
  success branch masks the entry with \<open>0x0FFFFFFF\<close>, the read-failure branch returns 0.
  So is every value \<open>next_cluster\<close> returns. Both return a value whenever
  \<open>sectors_per_cluster\<close> is not 0 (otherwise the division traps).
\<close>

theorem fat_values_below_2_28:
  "(\<forall>v. read_fat_value disk ps bs cluster = Inr v \<longrightarrow> v < 2 ^ 28) \<and>
   (\<forall>n. next_cluster disk ps bs cluster = Inr n \<longrightarrow> n < 2 ^ 28) \<and>
   (sectors_per_cluster bs \<noteq> 0 \<longrightarrow>
      (\<exists>v. read_fat_value disk ps bs cluster = Inr v) \<and>
      (\<exists>n. next_cluster disk ps bs cluster = Inr n))"
  using read_fat_value_less next_cluster_less read_fat_value_total next_cluster_total
  by blast

text \<open>
  Witness for C10 on the sample volume: the entry of cluster 3 is \<open>0xFFFFFFFF\<close> on
  disk and \<open>0x0FFFFFFF\<close> as returned.
\<close>

theorem fat_values_below_2_28_witness:
  "read_fat_value sample_disk 0 sample_bs 3 = Inr 0x0FFFFFFF \<and> (0x0FFFFFFF :: u32) < 2 ^ 28
   \<and> sectors_per_cluster sample_bs \<noteq> 0
   \<and> next_cluster sample_disk 0 sample_bs 2 = Inr 3 \<and> (3 :: u32) < 2 ^ 28"
proof -
  have v: "read_fat_value sample_disk 0 sample_bs 3 = Inr 0x0FFFFFFF"
    by (simp add: read_fat_value_raw sample_fat_raw) (simp add: sample_bs_def)
  have n: "next_cluster sample_disk 0 sample_bs 2 = Inr 3"
    by (rule sample_next)
  have s: "sectors_per_cluster sample_bs \<noteq> 0"
    by (simp add: sample_bs_def)
  from fat_values_below_2_28 [of sample_disk 0 sample_bs 3] v
  have "(0x0FFFFFFF :: u32) < 2 ^ 28" by blast
  moreover from fat_values_below_2_28 [of sample_disk 0 sample_bs 2] n
  have "(3 :: u32) < 2 ^ 28" by blast
  ultimately show ?thesis using v n s by blast
qed

text \<open>
  Claim C5 as stated fails. On the sample volume the FAT entry of cluster 5 is
  \<open>0xF0000000\<close>: the read succeeds, the masked value is 0, which is below
  \<open>0x0FFFFFF8\<close>, and \<open>next_cluster\<close> returns 0, the value its callers take for "no
  successor". And with \<open>sectors_per_cluster = 0\<close> the call does not return a value at
  all.
\<close>

theorem next_cluster_counterexample:
  "\<not> (next_cluster sample_disk 0 sample_bs 5 = Inr 0 \<longleftrightarrow>
        (case fat_entry_raw sample_disk 0 sample_bs 5 of
           None \<Rightarrow> True
         | Some raw \<Rightarrow> raw AND 0x0FFFFFFF \<ge> 0x0FFFFFF8))
   \<and> next_cluster sample_disk 0 (sample_bs\<lparr>sectors_per_cluster := 0\<rparr>) 5 = Inl DivisionByZero"
  by (simp add: sample_next sample_fat_raw) (simp add: next_cluster_raw)

text \<open>
  Claim C5, amended. With \<open>sectors_per_cluster > 0\<close>, \<open>next_cluster\<close> returns 0 ("no
  successor") exactly when the FAT read failed, or the masked entry is \<open>\<ge> 0x0FFFFFF8\<close>,
  or the masked entry is 0 itself; every other masked value, the corruption sentinel
  \<open>0x0FFFFFF7\<close> included, is returned unchanged. The mask keeps the low 28 bits of the
  32-bit entry. With \<open>sectors_per_cluster = 0\<close> the offset computation divides by zero.
\<close>

theorem next_cluster_successor:
  "next_cluster disk ps bs cluster =
     (if sectors_per_cluster bs = 0 then Inl DivisionByZero
      else Inr (case fat_entry_raw disk ps bs cluster of
                  None \<Rightarrow> 0
                | Some raw \<Rightarrow>
                    if raw AND 0x0FFFFFFF \<ge> 0x0FFFFFF8 then 0 else raw AND 0x0FFFFFFF))
   \<and> (sectors_per_cluster bs \<noteq> 0 \<longrightarrow>
        (next_cluster disk ps bs cluster = Inr 0 \<longleftrightarrow>
           (case fat_entry_raw disk ps bs cluster of
              None \<Rightarrow> True
            | Some raw \<Rightarrow> raw AND 0x0FFFFFFF \<ge> 0x0FFFFFF8 \<or> raw AND 0x0FFFFFFF = 0)))
   \<and> (\<forall>raw :: u32. raw AND 0x0FFFFFFF = take_bit 28 raw)"
  by (simp add: next_cluster_raw mask28 split: option.splits)

text \<open>
  Witness for C5 on the sample volume: an end-of-chain entry gives 0, the sentinel is
  passed through.
\<close>

theorem next_cluster_successor_witness:
  "sectors_per_cluster sample_bs \<noteq> 0
   \<and> fat_entry_raw sample_disk 0 sample_bs 3 = Some 0xFFFFFFFF
   \<and> next_cluster sample_disk 0 sample_bs 3 = Inr 0
   \<and> fat_entry_raw sample_disk 0 sample_bs 6 = Some 0x0FFFFFF7
   \<and> next_cluster sample_disk 0 sample_bs 6 = Inr 0x0FFFFFF7"
  using next_cluster_successor [of sample_disk 0 sample_bs 3]
    next_cluster_successor [of sample_disk 0 sample_bs 6]
  by (simp add: sample_fat_raw) (simp add: sample_bs_def)

subsection \<open>Short names\<close>

lemma filename_length_loop_eq:
  "s \<le> 11 \<Longrightarrow> length nm = 11 \<Longrightarrow>
   filename_length_loop nm s = s + length (takeWhile (\<lambda>b. b \<noteq> 0x20) (drop s nm))"
proof (induction nm s rule: filename_length_loop.induct)
  case (1 nm s)
  show ?case
  proof (cases "s < 11")
    case True
    with 1 have d: "drop s nm = nm ! s # drop (Suc s) nm"
      by (simp add: Cons_nth_drop_Suc)
    from True 1 show ?thesis
      by (subst filename_length_loop.simps) (simp add: d)
  next
    case False
    with 1 show ?thesis
      by (subst filename_length_loop.simps) simp
  qed
qed

lemma filename_length_eq:
  "length nm = 11 \<Longrightarrow> filename_length nm = length (takeWhile (\<lambda>b. b \<noteq> 0x20) nm)"
  by (simp add: filename_length_def filename_length_loop_eq)

lemma filename_equals_loop_eq:
  "filename_equals_loop nm path len i \<longleftrightarrow> (\<forall>j. i \<le> j \<and> j < len \<longrightarrow> path ! j = nm ! j)"
proof (induction nm path len i rule: filename_equals_loop.induct)
  case (1 nm path len i)
  show ?case
  proof (cases "i < len")
    case True
    show ?thesis
    proof (cases "path ! i = nm ! i")
      case same: True
      have "(\<forall>j. i \<le> j \<and> j < len \<longrightarrow> path ! j = nm ! j) \<longleftrightarrow>
          (\<forall>j. Suc i \<le> j \<and> j < len \<longrightarrow> path ! j = nm ! j)"
        using same by (metis Suc_leI le_neq_implies_less Suc_leD)
      with True same 1 show ?thesis
        by (subst filename_equals_loop.simps) simp
    next
      case False
      with True show ?thesis
        by (subst filename_equals_loop.simps) auto
    qed
  next
    case False
    then show ?thesis
      by (subst filename_equals_loop.simps) auto
  qed
qed

lemma filename_equals_eq:
  assumes "length raw = 11"
  shows "filename_equals raw candidate \<longleftrightarrow>
     length candidate = length (takeWhile (\<lambda>b. b \<noteq> 0x20) raw)
     \<and> (\<forall>i < length candidate. candidate ! i = raw ! i)"
  using assms by (auto simp: filename_equals_def Let_def filename_length_eq filename_equals_loop_eq)

lemma filename_equals_takeWhile:
  assumes "length raw = 11"
  shows "filename_equals raw candidate \<longleftrightarrow> candidate = takeWhile (\<lambda>b. b \<noteq> 0x20) raw"
proof -
  let ?t = "takeWhile (\<lambda>b. b \<noteq> 0x20) raw"
  have nth: "?t ! i = raw ! i" if "i < length ?t" for i
    using that by (rule takeWhile_nth)
  show ?thesis
    unfolding filename_equals_eq [OF assms]
    by (auto simp: list_eq_iff_nth_eq nth)
qed

lemma takeWhile_padded:
  "0x20 \<notin> set xs \<Longrightarrow> takeWhile (\<lambda>b. b \<noteq> (0x20 :: u8)) (xs @ replicate n 0x20 @ ys) =
     (if n = 0 then xs @ takeWhile (\<lambda>b. b \<noteq> 0x20) ys else xs)"
  by (induction xs) (auto simp: gr0_conv_Suc)

lemma length_pad_8_3:
  "length base \<le> 8 \<Longrightarrow> length ext \<le> 3 \<Longrightarrow> length (pad_8_3 base ext) = 11"
  by (simp add: pad_8_3_def)

lemma takeWhile_pad_8_3:
  assumes "length base \<le> 8" "length ext \<le> 3" "0x20 \<notin> set base" "0x20 \<notin> set ext"
  shows "takeWhile (\<lambda>b. b \<noteq> 0x20) (pad_8_3 base ext) =
     (if length base = 8 then base @ ext else base)"
proof -
  have "takeWhile (\<lambda>b. b \<noteq> 0x20) (ext @ replicate (3 - length ext) 0x20) = ext"
    using takeWhile_padded [OF assms(4), of "3 - length ext" "[]"] by simp
  then show ?thesis
    using assms(1) takeWhile_padded [OF assms(3), of "8 - length base"]
    by (simp add: pad_8_3_def)
qed

text \<open>
  Claim C8 as stated fails in its second half. FOO.TXT is stored as "FOO     TXT";
  the length the driver computes stops at the first space, so the field equals neither
  "FOOTXT" nor "FOO.TXT", only "FOO".
\<close>

theorem filename_equals_counterexample:
  "\<not> filename_equals (pad_8_3 [0x46, 0x4F, 0x4F] [0x54, 0x58, 0x54])
        [0x46, 0x4F, 0x4F, 0x54, 0x58, 0x54]
   \<and> \<not> filename_equals (pad_8_3 [0x46, 0x4F, 0x4F] [0x54, 0x58, 0x54])
        [0x46, 0x4F, 0x4F, 0x2E, 0x54, 0x58, 0x54]
   \<and> filename_equals (pad_8_3 [0x46, 0x4F, 0x4F] [0x54, 0x58, 0x54]) [0x46, 0x4F, 0x4F]"
  by (simp add: filename_equals_takeWhile length_pad_8_3 takeWhile_pad_8_3)

text \<open>
  Claim C8, amended. For an 11-byte field, \<open>filename_equals\<close> is true iff the
  candidate's length is the number of leading non-space bytes of the field (11 if it
  has no space) and every byte of the candidate equals the field's byte at its index,
  compared as bytes with no case normalisation; that is, iff the candidate is the
  field's prefix before its first space. For a space-free 8.3 name padded into the
  field, the field equals the name's bytes (base followed by extension) iff the base
  fills all 8 bytes or the extension is empty.
\<close>

theorem filename_equals_characterisation:
  "(length raw = 11 \<longrightarrow>
      (filename_equals raw candidate \<longleftrightarrow>
         length candidate = length (takeWhile (\<lambda>b. b \<noteq> 0x20) raw)
         \<and> (\<forall>i < length candidate. candidate ! i = raw ! i)))
   \<and> (length raw = 11 \<longrightarrow>
        (filename_equals raw candidate \<longleftrightarrow> candidate = takeWhile (\<lambda>b. b \<noteq> 0x20) raw))
   \<and> (length base \<le> 8 \<and> length ext \<le> 3 \<and> 0x20 \<notin> set base \<and> 0x20 \<notin> set ext \<longrightarrow>
        (filename_equals (pad_8_3 base ext) (base @ ext) \<longleftrightarrow> length base = 8 \<or> ext = []))"
proof (intro conjI impI)
  assume "length raw = 11"
  then show "filename_equals raw candidate \<longleftrightarrow>
         length candidate = length (takeWhile (\<lambda>b. b \<noteq> 0x20) raw)
         \<and> (\<forall>i < length candidate. candidate ! i = raw ! i)"
    by (rule filename_equals_eq)
next
  assume "length raw = 11"
  then show "filename_equals raw candidate \<longleftrightarrow> candidate = takeWhile (\<lambda>b. b \<noteq> 0x20) raw"
    by (rule filename_equals_takeWhile)
next
  assume a: "length base \<le> 8 \<and> length ext \<le> 3 \<and> 0x20 \<notin> set base \<and> 0x20 \<notin> set ext"
  then show "filename_equals (pad_8_3 base ext) (base @ ext) \<longleftrightarrow> length base = 8 \<or> ext = []"
    by (simp add: filename_equals_takeWhile length_pad_8_3 takeWhile_pad_8_3)
qed

text \<open>
  Witness for C8: "FOO" against its padded field, a candidate in another case, a shorter
  candidate, and "FILENAME" with extension "EXT".
\<close>

theorem filename_equals_characterisation_witness:
  "length (pad_8_3 [0x46, 0x4F, 0x4F] []) = 11
   \<and> filename_equals (pad_8_3 [0x46, 0x4F, 0x4F] []) [0x46, 0x4F, 0x4F]
   \<and> \<not> filename_equals (pad_8_3 [0x46, 0x4F, 0x4F] []) [0x66, 0x6F, 0x6F]
   \<and> \<not> filename_equals (pad_8_3 [0x46, 0x4F, 0x4F] []) [0x46, 0x4F]
   \<and> filename_equals (pad_8_3 [0x46, 0x49, 0x4C, 0x45, 0x4E, 0x41, 0x4D, 0x45] [0x45, 0x58, 0x54])
        ([0x46, 0x49, 0x4C, 0x45, 0x4E, 0x41, 0x4D, 0x45] @ [0x45, 0x58, 0x54])"
proof -
  have len: "length (pad_8_3 [0x46, 0x4F, 0x4F] []) = 11"
    by (simp add: pad_8_3_def)
  have tw: "takeWhile (\<lambda>b. b \<noteq> 0x20) (pad_8_3 [0x46, 0x4F, 0x4F] []) = [0x46, 0x4F, 0x4F]"
    by (simp add: pad_8_3_def)
  have eq: "filename_equals (pad_8_3 [0x46, 0x4F, 0x4F] []) c \<longleftrightarrow> c = [0x46, 0x4F, 0x4F]" for c
    using filename_equals_characterisation [of "pad_8_3 [0x46, 0x4F, 0x4F] []" c "[]" "[]"] len
    by (simp only: tw) blast
  have full: "filename_equals
      (pad_8_3 [0x46, 0x49, 0x4C, 0x45, 0x4E, 0x41, 0x4D, 0x45] [0x45, 0x58, 0x54])
      ([0x46, 0x49, 0x4C, 0x45, 0x4E, 0x41, 0x4D, 0x45] @ [0x45, 0x58, 0x54])"
    using filename_equals_characterisation
      [of "[]" "[]" "[0x46, 0x49, 0x4C, 0x45, 0x4E, 0x41, 0x4D, 0x45]" "[0x45, 0x58, 0x54]"]
    by simp
  show ?thesis
    using len full by (simp add: eq)
qed

subsection \<open>Geometry and metadata cache\<close>

lemma cache_boot_unreadable:
  assumes "cached_disk st \<noteq> disk_uuid disk \<or> cached_partition st \<noteq> partition_uuid part"
    and "read_sectors disk (start part) 1 = None"
  shows "cache_disk_partition disk part st = Inl NullPointer"
  using assms by (simp add: cache_disk_partition_def cache_bs_def cache_is_def)

lemma sample_cached:
  "cache_disk_partition sample_disk sample_partition initial_cache = Inr (True, sample_cache)"
  by (simp add: cache_disk_partition_def cache_bs_def cache_is_def initial_cache_def
      sample_uuids sample_sectors decode_sample_boot sample_cache_def sample_bs_fields
      decode_sample_fsinfo)

lemma big_cached:
  "cache_disk_partition big_disk sample_partition initial_cache =
     Inr (True, \<lparr>cached_disk = 2, cached_partition = 1, partition_start = 0,
       fat_bs = Some big_bs,
       fat_is = Some \<lparr>free_clusters = 0x100000, allocated_clusters = 0\<rparr>\<rparr>)"
  by (simp add: cache_disk_partition_def cache_bs_def cache_is_def initial_cache_def
      sample_uuids big_uuid big_sectors decode_big_boot big_bs_fields decode_big_fsinfo)

text \<open>
  Claim C3 at a disk whose boot sector cannot be read. \<open>cache_disk_partition\<close> calls
  \<open>cache_is\<close> whether or not \<open>cache_bs\<close> succeeded, and \<open>cache_is\<close> starts by reading
  \<open>fat_bs->fs_information_sector\<close> to compute the address of its read: the call
  dereferences the null \<open>fat_bs\<close> and does not return false.
\<close>

theorem cache_null_dereference:
  "read_sectors dead_disk (start sample_partition) 1 = None
   \<and> cache_disk_partition dead_disk sample_partition initial_cache = Inl NullPointer"
proof -
  have r: "read_sectors dead_disk (start sample_partition) 1 = None"
    by (simp add: dead_read)
  have "cached_disk initial_cache \<noteq> disk_uuid dead_disk"
    by (simp add: initial_cache_def dead_disk_def)
  with r show ?thesis
    by (simp add: cache_boot_unreadable)
qed

text \<open>
  Witness for C3: the identity of the dead disk is not the cached one, so the reads
  are attempted, and the outcome is a fault, not a returned pair.
\<close>

theorem cache_null_dereference_witness:
  "cached_disk initial_cache \<noteq> disk_uuid dead_disk
   \<and> isl (cache_disk_partition dead_disk sample_partition initial_cache)"
  using cache_null_dereference by (simp add: initial_cache_def dead_disk_def)

text \<open>
  Claim C9 at a new identity whose boot sector cannot be read, with another volume
  cached: the call ends in the null dereference of \<open>cache_is\<close>, before the lines that
  record the identity. (When the boot sector is read and the FS-information sector is
  not, the identity is recorded and the failure is sticky:
  \<open>cache_fs_info_unreadable_sticky\<close>.)
\<close>

theorem cache_failure_not_recorded:
  "read_sectors sample_disk (start \<lparr>partition_uuid = 2, start = 100\<rparr>) 1 = None
   \<and> cache_disk_partition sample_disk \<lparr>partition_uuid = 2, start = 100\<rparr> sample_cache
       = Inl NullPointer"
proof -
  have r: "read_sectors sample_disk (start \<lparr>partition_uuid = 2, start = 100\<rparr>) 1 = None"
    by (simp add: read_one sample_disk_def)
  have "cached_partition sample_cache \<noteq> partition_uuid \<lparr>partition_uuid = 2, start = 100\<rparr>"
    by (simp add: sample_cache_def)
  with r show ?thesis
    by (simp add: cache_boot_unreadable)
qed

text \<open>
  Witness for C9: the partition's identity is not the cached one, and the outcome is a
  fault, not a returned pair.
\<close>

theorem cache_failure_not_recorded_witness:
  "cached_partition sample_cache \<noteq> partition_uuid \<lparr>partition_uuid = 2, start = 100\<rparr>
   \<and> isl (cache_disk_partition sample_disk \<lparr>partition_uuid = 2, start = 100\<rparr> sample_cache)"
  using cache_failure_not_recorded by (simp add: sample_cache_def)

lemma cache_fs_info_unreadable_sticky:
  assumes "cached_disk st \<noteq> disk_uuid disk \<or> cached_partition st \<noteq> partition_uuid part"
    and "read_sectors disk (start part) 1 = Some boot"
    and "read_sectors disk (start part + ucast (fs_information_sector (decode_bs boot))) 1 = None"
    and "disk_uuid disk' = disk_uuid disk" and "partition_uuid part' = partition_uuid part"
  shows "\<exists>st'. cache_disk_partition disk part st = Inr (False, st')
     \<and> cached_disk st' = disk_uuid disk \<and> cached_partition st' = partition_uuid part
     \<and> cache_disk_partition disk' part' st' = Inr (False, st')"
  using assms by (simp add: cache_disk_partition_def cache_bs_def cache_is_def)

subsection \<open>Free size\<close>

lemma free_size_cached:
  assumes "cache_disk_partition disk part st = Inr (True, st')"
    and "fat_bs st' = Some bs" and "fat_is st' = Some fis"
  shows "free_size disk part st =
     Inr (of_nat ((unat (free_clusters fis) * unat (sectors_per_cluster bs) * 512) mod 2 ^ 32), st')"
proof -
  have "unat (free_clusters fis * ucast (sectors_per_cluster bs) * 512 :: u32) =
      (unat (free_clusters fis) * unat (sectors_per_cluster bs) * 512) mod 2 ^ 32"
    by (simp add: unat_word_ariths unat_ucast_u8_u32 mod_mult_left_eq)
  then have "(ucast (free_clusters fis * ucast (sectors_per_cluster bs) * 512 :: u32) :: u64) =
      of_nat ((unat (free_clusters fis) * unat (sectors_per_cluster bs) * 512) mod 2 ^ 32)"
    by (metis of_nat_unat)
  with assms show ?thesis
    by (simp add: free_size_def)
qed

lemma free_size_uncached:
  "cache_disk_partition disk part st = Inr (False, st') \<Longrightarrow> free_size disk part st = Inr (0, st')"
  by (simp add: free_size_def)

text \<open>
  Claim C7 at a volume with \<open>0x100000\<close> free clusters of 8 sectors: the exact product
  is \<open>2^32\<close> bytes, the \<open>uint32_t\<close> product the function computes is 0.
\<close>

theorem free_size_wraps:
  "free_size big_disk sample_partition initial_cache =
     Inr (0, \<lparr>cached_disk = 2, cached_partition = 1, partition_start = 0,
       fat_bs = Some big_bs,
       fat_is = Some \<lparr>free_clusters = 0x100000, allocated_clusters = 0\<rparr>\<rparr>)
   \<and> unat (0x100000 :: u32) * unat (sectors_per_cluster big_bs) * 512 = 4294967296"
  by (simp add: free_size_def big_cached big_bs_fields)

subsection \<open>Path resolver\<close>

lemma find_while_end_reached:
  assumes "find_for p current_cluster = EndReached"
  shows "find_while disk ps bs p is_last cluster_number current_cluster end_reached = None"
proof (rule ccontr)
  assume "find_while disk ps bs p is_last cluster_number current_cluster end_reached \<noteq> None"
  then obtain y where
    y: "find_while disk ps bs p is_last cluster_number current_cluster end_reached = Some y"
    by auto
  have "find_for p current_cluster \<noteq> EndReached"
  proof (rule find_while.raw_induct
      [where P = "\<lambda>disk ps bs p is_last cluster_number current_cluster end_reached y.
         find_for p current_cluster \<noteq> EndReached", OF _ y], goal_cases)
    case (1 f disk ps bs p is_last cluster_number current_cluster end_reached y)
    show ?case
    proof
      assume e: "find_for p current_cluster = EndReached"
      with 1(2) have "f disk ps bs p is_last cluster_number current_cluster True = Some y"
        by simp
      from 1(1) [OF this] e show False by simp
    qed
  qed
  with assms show False by simp
qed

lemma find_while_exhausted:
  assumes "find_for p current_cluster = Exhausted"
    and "next_cluster disk ps bs cluster_number = Inr next"
    and "next \<noteq> 0" and "next \<noteq> 0x0FFFFFF7"
    and "read_sectors disk (cluster_lba ps bs (ucast next)) (unat (sectors_per_cluster bs)) = Some buf"
  shows "find_while disk ps bs p is_last cluster_number current_cluster False =
     find_while disk ps bs p is_last next (cluster_entries bs buf) False"
  using assms by (subst find_while.simps) simp

lemma sample_root_no_dir:
  "find_for [0x42, 0x41, 0x52] (cluster_entries sample_bs sample_root) = Exhausted"
  by (simp add: cluster_entries_def sample_bs_fields upt_16 decode_entry_def end_of_directory_def
      sample_root_def entry_used_def is_long_name_def nth_append)

lemma sample_cluster3_end: "find_for p (cluster_entries sample_bs (replicate 512 0)) = EndReached"
  by (simp add: cluster_entries_def sample_bs_fields upt_16 decode_entry_def end_of_directory_def)

text \<open>
  Claim C2 at the path \<open>["BAR"]\<close> on the sample volume. No entry of the root's first
  cluster is a directory, so the scan moves on to cluster 3, whose first entry is the
  end-of-directory marker. The \<open>for\<close> loop sets \<open>end_reached\<close> and breaks; the body of
  \<open>while(!found)\<close> then does nothing, \<open>found\<close> is still false, and the same scan runs
  again, for ever: \<open>find_cluster_number\<close> does not return, where the claim has it
  report failure. (\<open>find_while_end_reached\<close>: so it is from any state whose cluster
  meets the marker before a match.)
\<close>

theorem find_cluster_number_never_returns:
  "find_cluster_number sample_disk 0 sample_bs [[0x42, 0x41, 0x52]] = None"
proof -
  have "find_while sample_disk 0 sample_bs [0x42, 0x41, 0x52] True 2
      (cluster_entries sample_bs sample_root) False =
    find_while sample_disk 0 sample_bs [0x42, 0x41, 0x52] True 3
      (cluster_entries sample_bs (replicate 512 0)) False"
    by (rule find_while_exhausted)
      (simp_all add: sample_root_no_dir sample_next sample_cluster_lba sample_bs_fields
        sample_sectors)
  also have "\<dots> = None"
    by (rule find_while_end_reached) (rule sample_cluster3_end)
  finally show ?thesis
    by (simp add: find_cluster_number_def sample_bs_fields sample_cluster_lba sample_sectors)
qed

subsection \<open>Directory lister\<close>

lemma files_for_append:
  "files_for bs entries fs = (fs @ fst (files_for bs entries []), snd (files_for bs entries []))"
proof (induction entries arbitrary: fs)
  case Nil
  show ?case by simp
next
  case (Cons entry rest)
  show ?case
    using Cons.IH [of "fs @ [make_file bs entry]"] Cons.IH [of "[make_file bs entry]"] Cons.IH [of fs]
    by (simp add: split_beta)
qed

lemma files_while_restarts:
  assumes "read_sectors disk (cluster_lba ps bs (ucast searched)) (unat (sectors_per_cluster bs)) = Some buf"
    and "\<not> snd (files_for bs (cluster_entries bs buf) [])"
    and "next_cluster disk ps bs searched = Inr nxt"
    and "nxt \<noteq> 0" and "nxt \<noteq> 0x0FFFFFF7"
  shows "files_while disk ps bs searched fs =
     files_while disk ps bs searched (fs @ fst (files_for bs (cluster_entries bs buf) []))"
  using assms
  by (subst files_while.simps, subst files_for_append) simp

lemma files_while_never_returns:
  assumes "read_sectors disk (cluster_lba ps bs (ucast searched)) (unat (sectors_per_cluster bs)) = Some buf"
    and "\<not> snd (files_for bs (cluster_entries bs buf) [])"
    and "next_cluster disk ps bs searched = Inr nxt"
    and "nxt \<noteq> 0" and "nxt \<noteq> 0x0FFFFFF7"
  shows "files_while disk ps bs searched fs = None"
proof (rule ccontr)
  let ?goes_on = "\<lambda>disk ps bs searched.
     \<exists>buf nxt. read_sectors disk (cluster_lba ps bs (ucast searched))
          (unat (sectors_per_cluster bs)) = Some buf
       \<and> \<not> snd (files_for bs (cluster_entries bs buf) [])
       \<and> next_cluster disk ps bs searched = Inr nxt \<and> nxt \<noteq> 0 \<and> nxt \<noteq> 0x0FFFFFF7"
  assume "files_while disk ps bs searched fs \<noteq> None"
  then obtain y where y: "files_while disk ps bs searched fs = Some y"
    by auto
  have "\<not> ?goes_on disk ps bs searched"
  proof (rule files_while.raw_induct
      [where P = "\<lambda>disk ps bs searched fs y. \<not> ?goes_on disk ps bs searched", OF _ y],
      goal_cases)
    case (1 f disk ps bs searched fs y)
    show ?case
    proof
      assume "?goes_on disk ps bs searched"
      then obtain buf nxt where
        g: "read_sectors disk (cluster_lba ps bs (ucast searched))
              (unat (sectors_per_cluster bs)) = Some buf"
          "\<not> snd (files_for bs (cluster_entries bs buf) [])"
          "next_cluster disk ps bs searched = Inr nxt" "nxt \<noteq> 0" "nxt \<noteq> 0x0FFFFFF7"
        by blast
      have "files_for bs (cluster_entries bs buf) fs =
          (fs @ fst (files_for bs (cluster_entries bs buf) []), False)"
        using g(2) by (subst files_for_append) simp
      with 1(2) g have "f disk ps bs searched (fs @ fst (files_for bs (cluster_entries bs buf) [])) = Some y"
        by simp
      from 1(1) [OF this] g show False by blast
    qed
  qed
  with assms show False by blast
qed

lemma sample_root_files_end:
  "\<not> snd (files_for sample_bs (cluster_entries sample_bs sample_root) [])"
  by (simp add: cluster_entries_def sample_bs_fields upt_16 decode_entry_def end_of_directory_def
      sample_root_def entry_used_def nth_append)

text \<open>
  Claim C1 at the root directory of the sample volume, whose chain is the clusters 2
  and 3. Cluster 2 has sixteen used entries and no end-of-directory entry, and its FAT
  successor is 3. \<open>files\<close> computes that successor and assigns it to the
  \<open>cluster_number\<close> of the loop body, but the next round declares \<open>cluster_number\<close>
  anew from the searched cluster: it reads cluster 2 again, pushes the same sixteen
  records again (\<open>files_while_restarts\<close>), and so on for ever. Neither \<open>files\<close> nor
  \<open>ls\<close> returns, where the claim has each cluster of the chain listed once.
\<close>

theorem files_never_returns:
  "files sample_disk 0 sample_bs [] = None
   \<and> ls sample_disk sample_partition [] initial_cache = None"
proof -
  have "files_while sample_disk 0 sample_bs 2 [] = None"
    by (rule files_while_never_returns [where buf = sample_root and nxt = 3])
      (simp_all add: sample_cluster_lba sample_bs_fields sample_sectors sample_root_files_end
        sample_next)
  then have "files sample_disk 0 sample_bs [] = None"
    by (simp add: files_def find_cluster_number_def sample_bs_fields)
  then show ?thesis
    by (simp add: ls_def sample_cached sample_cache_def)
qed

subsection \<open>File reader\<close>

lemma copy_for_eq:
  "i \<le> cluster_size \<Longrightarrow> cluster_size \<le> length sector \<Longrightarrow>
   copy_for sector cluster_size fsz i read content =
     (read + min (cluster_size - i) (fsz - read),
      content @ take (min (cluster_size - i) (fsz - read)) (drop i sector))"
proof (induction sector cluster_size fsz i read content rule: copy_for.induct)
  case (1 sector cluster_size fsz i read content)
  show ?case
  proof (cases "i < cluster_size \<and> read < fsz")
    case True
    then have m: "min (cluster_size - i) (fsz - read) =
        Suc (min (cluster_size - Suc i) (fsz - Suc read))"
      by (auto simp: min_def)
    from True 1 have "drop i sector = sector ! i # drop (Suc i) sector"
      by (simp add: Cons_nth_drop_Suc)
    with True 1 m show ?thesis
      by (subst copy_for.simps) simp
  next
    case False
    then show ?thesis
      by (subst copy_for.simps) (auto simp: min_def)
  qed
qed

lemma chain_bytes_0: "chain_bytes disk ps bs cluster 0 = []"
  by (subst chain_bytes.simps) simp

lemma read_while_chain_bytes:
  "sectors_per_cluster bs \<noteq> 0 \<Longrightarrow> read \<le> unat fsz \<Longrightarrow>
   read_while disk ps bs fsz cluster read content =
     Inr (content @ chain_bytes disk ps bs cluster (unat fsz - read))"
proof (induction disk ps bs fsz cluster read content rule: read_while.induct)
  case (1 disk ps bs fsz cluster read content)
  let ?cs = "512 * unat (sectors_per_cluster bs)"
  have cs: "0 < ?cs" using 1(3) by (simp add: unat_gt_0)
  show ?case
  proof (cases "read < unat fsz")
    case False
    then show ?thesis
      by (subst read_while.simps, subst chain_bytes.simps) simp
  next
    case True
    show ?thesis
    proof (cases "read_sectors disk (cluster_lba ps bs (scast cluster)) (unat (sectors_per_cluster bs))")
      case None
      with True 1(3) show ?thesis
        by (subst read_while.simps, subst chain_bytes.simps) simp
    next
      case (Some sector)
      then have len: "length sector = ?cs"
        by (simp add: read_sectors_length)
      let ?n = "min ?cs (unat fsz - read)"
      have cp: "copy_for sector ?cs (unat fsz) 0 read content = (read + ?n, content @ take ?n sector)"
        using copy_for_eq [of 0 ?cs sector "unat fsz" read content] len by simp
      show ?thesis
      proof (cases "read + ?n < unat fsz")
        case more: True
        then have n: "?n = ?cs" by (simp add: min_def split: if_splits)
        obtain successor where nc: "next_cluster disk ps bs cluster = Inr successor"
          using next_cluster_total [OF 1(3)] by blast
        show ?thesis
        proof (cases "successor = 0 \<or> successor = 0x0FFFFFF7")
          case stop: True
          with True Some cp more nc n 1(3) show ?thesis
            by (subst read_while.simps, subst chain_bytes.simps) auto
        next
          case False
          then have ih: "read_while disk ps bs fsz successor (read + ?n) (content @ take ?n sector) =
              Inr ((content @ take ?n sector) @ chain_bytes disk ps bs successor (unat fsz - (read + ?n)))"
            using 1(1) [OF True refl Some cp [symmetric] more nc] more 1(3) by simp
          from False True Some cp more nc n 1(3) show ?thesis
            by (subst read_while.simps, subst chain_bytes.simps) (simp add: ih [unfolded n] chain_bytes_0)
        qed
      next
        case all: False
        then have n: "?n = unat fsz - read" and le: "unat fsz - read \<le> ?cs"
          by (simp_all add: min_def split: if_splits)
        have rn: "read + ?n = unat fsz"
          using n True by simp
        have "read_while disk ps bs fsz cluster (read + ?n) (content @ take ?n sector) =
            Inr ((content @ take ?n sector) @ chain_bytes disk ps bs cluster (unat fsz - (read + ?n)))"
          using 1(2) [OF True refl Some cp [symmetric] all] 1(3) True by (simp add: n)
        then have ih: "read_while disk ps bs fsz cluster (unat fsz)
            (content @ take (unat fsz - read) sector) = Inr (content @ take (unat fsz - read) sector)"
          unfolding rn by (simp add: n chain_bytes_0)
        from all True Some cp 1(3) le show ?thesis
          by (subst read_while.simps, subst chain_bytes.simps) (simp add: ih n)
      qed
    qed
  qed
qed

lemma chain_bytes_length: "length (chain_bytes disk ps bs cluster remaining) \<le> remaining"
proof (induction disk ps bs cluster remaining rule: chain_bytes.induct)
  case (1 disk ps bs cluster remaining)
  let ?cs = "512 * unat (sectors_per_cluster bs)"
  show ?case
  proof (cases "remaining = 0 \<or> sectors_per_cluster bs = 0")
    case True
    then show ?thesis
      by (subst chain_bytes.simps) simp
  next
    case False
    show ?thesis
    proof (cases "read_sectors disk (cluster_lba ps bs (scast cluster)) (unat (sectors_per_cluster bs))")
      case None
      with False show ?thesis
        by (subst chain_bytes.simps) simp
    next
      case (Some block)
      then have len: "length block = ?cs"
        by (simp add: read_sectors_length)
      show ?thesis
      proof (cases "remaining \<le> ?cs")
        case True
        with False Some len show ?thesis
          by (subst chain_bytes.simps) simp
      next
        case big: False
        show ?thesis
        proof (cases "next_cluster disk ps bs cluster")
          case (Inl e)
          with False Some len big show ?thesis
            by (subst chain_bytes.simps) simp
        next
          case (Inr successor)
          show ?thesis
          proof (cases "successor = 0 \<or> successor = 0x0FFFFFF7")
            case True
            with False Some len big Inr show ?thesis
              by (subst chain_bytes.simps) auto
          next
            case go: False
            have "length (chain_bytes disk ps bs successor (remaining - ?cs)) \<le> remaining - ?cs"
              using 1 [OF False Some big Inr go] .
            with False Some len big Inr go show ?thesis
              by (subst chain_bytes.simps) simp
          qed
        qed
      qed
    qed
  qed
qed

lemma read_for_first_match:
  assumes "k < length es"
    and "\<forall>j<k. \<not> end_of_directory (es ! j)
           \<and> \<not> (entry_used (es ! j) \<and> \<not> is_long_name (es ! j) \<and> attrib (es ! j) AND 0x10 = 0
                \<and> filename_equals (name (es ! j)) f)"
    and "\<not> end_of_directory (es ! k)" and "entry_used (es ! k)" and "\<not> is_long_name (es ! k)"
    and "attrib (es ! k) AND 0x10 = 0" and "filename_equals (name (es ! k)) f"
  shows "read_for f es = Some (es ! k)"
  using assms
proof (induction es arbitrary: k)
  case Nil
  then show ?case by simp
next
  case (Cons e rest)
  show ?case
  proof (cases k)
    case 0
    with Cons.prems show ?thesis by simp
  next
    case (Suc k')
    from Cons.prems(2) Suc have e: "\<not> end_of_directory e"
      "\<not> (entry_used e \<and> \<not> is_long_name e \<and> attrib e AND 0x10 = 0 \<and> filename_equals (name e) f)"
      by auto
    have "read_for f rest = Some (rest ! k')"
    proof (rule Cons.IH)
      show "k' < length rest" using Cons.prems(1) Suc by simp
      show "\<forall>j<k'. \<not> end_of_directory (rest ! j)
           \<and> \<not> (entry_used (rest ! j) \<and> \<not> is_long_name (rest ! j) \<and> attrib (rest ! j) AND 0x10 = 0
                \<and> filename_equals (name (rest ! j)) f)"
        using Cons.prems(2) Suc by auto
    qed (use Cons.prems Suc in simp_all)
    with e Suc show ?thesis by auto
  qed
qed

lemma find_directory_cluster_length:
  "find_directory_cluster disk ps bs path = Some (Inr (True, dc)) \<Longrightarrow>
   length dc = 16 * unat (sectors_per_cluster bs)"
  by (auto simp: find_directory_cluster_def cluster_entries_def
      split: option.splits sum.splits if_splits)

text \<open>
  Claim C4. Let the geometry be cached and the parent directory resolved, its first
  cluster read as \<open>dc\<close>, and let entry \<open>k\<close> of \<open>dc\<close> be used, not a long name, not a
  directory and named \<open>f\<close>, with no end-of-directory entry and no other such entry
  before it. Then \<open>read_file\<close> returns, and what it returns is \<open>chain_bytes\<close> from the
  entry's cluster (\<open>cluster_low + (cluster_high << 16)\<close>) for its 32-bit \<open>file_size\<close>:
  \<open>min(cluster_size, remaining)\<close> bytes per cluster, along the FAT chain, until the
  size is reached, a read fails, or the successor is 0 or \<open>0x0FFFFFF7\<close>; what was
  appended up to there is the result, never more than \<open>file_size\<close> bytes. (An entry
  in the cluster means that \<open>sectors_per_cluster\<close> is not 0.)
\<close>

theorem read_file_content:
  assumes "cache_disk_partition disk part st = Inr (True, st')"
    and "fat_bs st' = Some bs"
    and "find_directory_cluster disk (partition_start st') bs path = Some (Inr (True, dc))"
    and "k < length dc"
    and "\<forall>j<k. \<not> end_of_directory (dc ! j)
           \<and> \<not> (entry_used (dc ! j) \<and> \<not> is_long_name (dc ! j) \<and> attrib (dc ! j) AND 0x10 = 0
                \<and> filename_equals (name (dc ! j)) f)"
    and "\<not> end_of_directory (dc ! k)" and "entry_used (dc ! k)" and "\<not> is_long_name (dc ! k)"
    and "attrib (dc ! k) AND 0x10 = 0" and "filename_equals (name (dc ! k)) f"
  shows "read_file disk part path f st =
     Some (Inr (chain_bytes disk (partition_start st') bs
                  (ucast (cluster_low (dc ! k)) + push_bit 16 (ucast (cluster_high (dc ! k))))
                  (unat (file_size (dc ! k))), st'))
     \<and> length (chain_bytes disk (partition_start st') bs
                  (ucast (cluster_low (dc ! k)) + push_bit 16 (ucast (cluster_high (dc ! k))))
                  (unat (file_size (dc ! k)))) \<le> unat (file_size (dc ! k))"
proof -
  have "length dc = 16 * unat (sectors_per_cluster bs)"
    using assms(3) by (rule find_directory_cluster_length)
  with assms(4) have spc: "sectors_per_cluster bs \<noteq> 0"
    by (auto simp: unat_eq_0)
  have entry: "read_for f dc = Some (dc ! k)"
    using assms(4-10) by (rule read_for_first_match)
  have "read_while disk (partition_start st') bs (file_size (dc ! k))
      (ucast (cluster_low (dc ! k)) + push_bit 16 (ucast (cluster_high (dc ! k)))) 0 [] =
    Inr ([] @ chain_bytes disk (partition_start st') bs
      (ucast (cluster_low (dc ! k)) + push_bit 16 (ucast (cluster_high (dc ! k))))
      (unat (file_size (dc ! k)) - 0))"
    using spc by (intro read_while_chain_bytes) simp_all
  with assms(1-3) entry show ?thesis
    by (simp add: read_file_def chain_bytes_length)
qed

lemma sample_root_entry:
  "cluster_entries sample_bs sample_root ! 0 =
     \<lparr>name = [0x46, 0x4F, 0x4F] @ replicate 8 0x20, attrib = 0x20, cluster_high = 0,
      cluster_low = 4, file_size = 515\<rparr>"
  by (simp add: cluster_entries_def sample_bs_fields upt_16 decode_entry_def sample_root_def
      u16_at_def u32_at_def nth_append)

lemma sample_directory:
  "find_directory_cluster sample_disk 0 sample_bs [] =
     Some (Inr (True, cluster_entries sample_bs sample_root))"
  by (simp add: find_directory_cluster_def find_cluster_number_def sample_bs_fields
      sample_cluster_lba sample_sectors)

lemma sample_chain_bytes:
  "chain_bytes sample_disk 0 sample_bs 4 515 = replicate 512 0x61 @ replicate 3 0x62"
  by (subst chain_bytes.simps, subst chain_bytes.simps)
    (simp add: sample_bs_fields sample_cluster_lba sample_sectors sample_next)

text \<open>
  Witness for C4: \<open>FOO\<close> in the root of the sample volume, 515 bytes in the clusters
  4 and 5: all 512 bytes of cluster 4, then 3 bytes of cluster 5.
\<close>

theorem read_file_content_witness:
  "read_file sample_disk sample_partition [] [0x46, 0x4F, 0x4F] initial_cache =
     Some (Inr (replicate 512 0x61 @ replicate 3 0x62, sample_cache))"
proof -
  let ?dc = "cluster_entries sample_bs sample_root"
  let ?f = "[0x46, 0x4F, 0x4F] :: u8 list"
  have bs: "fat_bs sample_cache = Some sample_bs" and ps: "partition_start sample_cache = 0"
    by (simp_all add: sample_cache_def)
  have dir: "find_directory_cluster sample_disk (partition_start sample_cache) sample_bs [] =
      Some (Inr (True, ?dc))"
    by (simp add: ps sample_directory)
  have k: "0 < length ?dc"
    by (simp add: cluster_entries_def sample_bs_fields)
  have before: "\<forall>j<0. \<not> end_of_directory (?dc ! j)
      \<and> \<not> (entry_used (?dc ! j) \<and> \<not> is_long_name (?dc ! j) \<and> attrib (?dc ! j) AND 0x10 = 0
           \<and> filename_equals (name (?dc ! j)) ?f)"
    by simp
  have e: "\<not> end_of_directory (?dc ! 0)" "entry_used (?dc ! 0)" "\<not> is_long_name (?dc ! 0)"
    "attrib (?dc ! 0) AND 0x10 = 0" "filename_equals (name (?dc ! 0)) ?f"
    by (simp_all add: sample_root_entry entry_used_def end_of_directory_def is_long_name_def
        filename_equals_takeWhile)
  from read_file_content [OF sample_cached bs dir k before e]
  show ?thesis
    by (simp add: sample_root_entry ps sample_chain_bytes)
qed

end
